theory Spec2Isabelle
  imports Main "HOL-Library.Char_ord" "HOL-Library.List_Lexorder" "HOL-Library.AList"
    "HOL-Library.Word"
begin

section \<open>Errors and results\<close>

text \<open>
  The exceptions that the script can meet. \<open>ParseError\<close>, \<open>ValueError\<close>, \<open>LookupError\<close> and
  \<open>OSError\<close> are what \<open>ET.parse\<close> raises, each on the files told below. \<open>AttributeError\<close>
  is what Python raises when a method or an attribute is read from \<open>None\<close>
  (\<open>None.find(...)\<close>, \<open>None.text\<close>). The next three are raised by \<open>os.remove\<close>.
  \<open>LibraryError\<close> stands for any other exception that comes out of a library (a corrupt
  archive, a file that cannot be written, a display that is not there), with its message.
\<close>

datatype error =
  ParseError | ValueError | LookupError | OSError
  | AttributeError | FileNotFoundError | IsADirectoryError | NotADirectoryError
  | LibraryError string

text \<open>A computation that may raise: \<open>Inl\<close> is the exception, \<open>Inr\<close> the value returned.\<close>

definition bind_res :: "error + 'a \<Rightarrow> ('a \<Rightarrow> error + 'b) \<Rightarrow> error + 'b" where
  "bind_res m f = (case m of Inl e \<Rightarrow> Inl e | Inr v \<Rightarrow> f v)"

section \<open>The XML tree of \<open>xml.etree.ElementTree\<close>\<close>

text \<open>
  An \<open>Element\<close> has a tag, a \<open>text\<close> attribute, which is \<open>None\<close> when the element has no
  character data before its first child (as in \<open><org_name/>\<close>), and its children in
  document order.
\<close>

datatype element = Element (tag: string) (text_attr: "string option") (children: "element list")

text \<open>
  \<open>Element.findall(tag)\<close> with a plain tag name: the direct children with that tag, in
  document order. \<open>Element.find(tag)\<close> is the first of them, or \<open>None\<close>.
\<close>

definition findall :: "element \<Rightarrow> string \<Rightarrow> element list" where
  "findall e t = filter (\<lambda>c. tag c = t) (children e)"

definition find_el :: "element \<Rightarrow> string \<Rightarrow> element option" where
  "find_el e t = (case findall e t of [] \<Rightarrow> None | c # _ \<Rightarrow> Some c)"

text \<open>
  A Python variable that holds an element or \<open>None\<close> is an \<open>element option\<close>. Calling
  \<open>.find\<close> on it, or reading \<open>.text\<close> from it, raises \<open>AttributeError\<close> when it is \<open>None\<close>.
\<close>

definition call_find :: "element option \<Rightarrow> string \<Rightarrow> error + element option" where
  "call_find obj t = (case obj of None \<Rightarrow> Inl AttributeError | Some e \<Rightarrow> Inr (find_el e t))"

definition read_text :: "element option \<Rightarrow> error + string option" where
  "read_text obj = (case obj of None \<Rightarrow> Inl AttributeError | Some e \<Rightarrow> Inr (text_attr e))"

section \<open>The report parser\<close>

text \<open>\<open>get_text_or_none(element, subelement)\<close>, lines 34 to 45.\<close>

definition get_text_or_none :: "element option \<Rightarrow> string \<Rightarrow> error + string option" where
  "get_text_or_none element subelement =
     (if element \<noteq> None then
        bind_res (call_find element subelement) (\<lambda>found_element.
          if found_element \<noteq> None then read_text found_element else Inr None)
      else Inr None)"

text \<open>
  The dictionaries that \<open>parse_dmarc_xml\<close> builds have fixed keys, so each is a record;
  the field names are the keys, with a prefix that keeps them apart.
\<close>

record date_range =
  dr_begin :: "string option"
  dr_end :: "string option"

record metadata =
  md_org_name :: "string option"
  md_email :: "string option"
  md_report_id :: "string option"
  md_date_range :: date_range

record policy =
  pp_domain :: "string option"
  pp_adkim :: "string option"
  pp_aspf :: "string option"
  pp_p :: "string option"
  pp_sp :: "string option"
  pp_pct :: "string option"

record policy_evaluated =
  pe_disposition :: "string option"
  pe_dkim :: "string option"
  pe_spf :: "string option"

record identifiers =
  id_header_from :: "string option"

record auth_results =
  ar_dkim :: "string option"
  ar_spf :: "string option"

record parsed_record =
  rc_source_ip :: "string option"
  rc_count :: "string option"
  rc_policy_evaluated :: policy_evaluated
  rc_identifiers :: identifiers
  rc_auth_results :: auth_results

record report =
  report_metadata :: metadata
  policy_published :: policy
  records :: "parsed_record list"

text \<open>
  The expression \<open>get_text_or_none(parent.find(child), leaf) if parent is not None else None\<close>
  of lines 67, 68, 91 to 93, 99 and 100.
\<close>

definition guarded_text :: "element option \<Rightarrow> string \<Rightarrow> string \<Rightarrow> error + string option" where
  "guarded_text parent child leaf =
     (if parent \<noteq> None then
        bind_res (call_find parent child) (\<lambda>found. get_text_or_none found leaf)
      else Inr None)"

text \<open>The body of the loop over the \<open>record\<close> elements, lines 83 to 102.\<close>

definition parse_record :: "element \<Rightarrow> error + parsed_record" where
  "parse_record record =
     (let row_element = find_el record ''row'';
          identifiers_element = find_el record ''identifiers'';
          auth_results_element = find_el record ''auth_results''
      in
        bind_res (get_text_or_none row_element ''source_ip'') (\<lambda>source_ip.
        bind_res (get_text_or_none row_element ''count'') (\<lambda>count.
        bind_res (guarded_text row_element ''policy_evaluated'' ''disposition'') (\<lambda>disposition.
        bind_res (guarded_text row_element ''policy_evaluated'' ''dkim'') (\<lambda>dkim.
        bind_res (guarded_text row_element ''policy_evaluated'' ''spf'') (\<lambda>spf.
        bind_res (get_text_or_none identifiers_element ''header_from'') (\<lambda>header_from.
        bind_res (guarded_text auth_results_element ''dkim'' ''domain'') (\<lambda>auth_dkim.
        bind_res (guarded_text auth_results_element ''spf'' ''domain'') (\<lambda>auth_spf.
          Inr \<lparr> rc_source_ip = source_ip,
                rc_count = count,
                rc_policy_evaluated =
                  \<lparr> pe_disposition = disposition, pe_dkim = dkim, pe_spf = spf \<rparr>,
                rc_identifiers = \<lparr> id_header_from = header_from \<rparr>,
                rc_auth_results = \<lparr> ar_dkim = auth_dkim, ar_spf = auth_spf \<rparr> \<rparr>)))))))))"

text \<open>The loop of lines 82 to 103: each row is appended to the list built so far.\<close>

fun parse_records :: "element list \<Rightarrow> parsed_record list \<Rightarrow> error + parsed_record list" where
  "parse_records [] acc = Inr acc"
| "parse_records (record # rest) acc =
     bind_res (parse_record record) (\<lambda>row. parse_records rest (acc @ [row]))"

text \<open>
  What \<open>ET.parse(xml_file)\<close> and \<open>getroot()\<close> make of a file. The parser is the
  library's, so a file is given by what the library makes of it, in the order in which the
  parser meets the causes:
  \<^item> a file that cannot be opened or read raises \<open>OSError\<close> (the class or one of its
    subclasses);
  \<^item> a file whose XML declaration names an encoding for which Python has no text codec
    (\<open>encoding="x-foo"\<close>) raises \<open>LookupError\<close>;
  \<^item> a file whose XML declaration names an encoding that the parser does not support
    (a multi-byte one such as Shift_JIS, EUC-JP or GBK) raises \<open>ValueError\<close> (the class or
    one of its subclasses), whether the rest of the file is well-formed or not;
  \<^item> any other file that is not well-formed XML raises \<open>ParseError\<close>; a file with no root
    element at all is one of them;
  \<^item> every other file gives a tree, and \<open>getroot()\<close> its root element.
\<close>

datatype xml_file =
  Unreadable | UnknownEncoding | UnsupportedEncoding | NotWellFormed | Document element

definition ET_parse :: "xml_file \<Rightarrow> error + element" where
  "ET_parse f =
     (case f of
        Unreadable \<Rightarrow> Inl OSError
      | UnknownEncoding \<Rightarrow> Inl LookupError
      | UnsupportedEncoding \<Rightarrow> Inl ValueError
      | NotWellFormed \<Rightarrow> Inl ParseError
      | Document root \<Rightarrow> Inr root)"

text \<open>\<open>parse_dmarc_xml(xml_file)\<close>, lines 47 to 105.\<close>

definition parse_dmarc_xml :: "xml_file \<Rightarrow> error + report" where
  "parse_dmarc_xml xml_file =
     bind_res (ET_parse xml_file) (\<lambda>root.
       let report_metadata = find_el root ''report_metadata'';
           policy_published = find_el root ''policy_published'';
           records = findall root ''record''
       in
         bind_res (get_text_or_none report_metadata ''org_name'') (\<lambda>org_name.
         bind_res (get_text_or_none report_metadata ''email'') (\<lambda>email.
         bind_res (get_text_or_none report_metadata ''report_id'') (\<lambda>report_id.
         bind_res (guarded_text report_metadata ''date_range'' ''begin'') (\<lambda>begin.
         bind_res (guarded_text report_metadata ''date_range'' ''end'') (\<lambda>end.
         bind_res (get_text_or_none policy_published ''domain'') (\<lambda>domain.
         bind_res (get_text_or_none policy_published ''adkim'') (\<lambda>adkim.
         bind_res (get_text_or_none policy_published ''aspf'') (\<lambda>aspf.
         bind_res (get_text_or_none policy_published ''p'') (\<lambda>p.
         bind_res (get_text_or_none policy_published ''sp'') (\<lambda>sp.
         bind_res (get_text_or_none policy_published ''pct'') (\<lambda>pct.
         bind_res (parse_records records []) (\<lambda>rows.
           Inr \<lparr> report_metadata =
                   \<lparr> md_org_name = org_name, md_email = email, md_report_id = report_id,
                     md_date_range = \<lparr> dr_begin = begin, dr_end = end \<rparr> \<rparr>,
                 policy_published =
                   \<lparr> pp_domain = domain, pp_adkim = adkim, pp_aspf = aspf,
                     pp_p = p, pp_sp = sp, pp_pct = pct \<rparr>,
                 records = rows \<rparr>)))))))))))))"

section \<open>Field lookup as a path from an element\<close>

text \<open>
  \<open>node e path\<close> follows \<open>path\<close> from \<open>e\<close>, at each step to the first child with the next
  tag; it is \<open>None\<close> as soon as a step finds no child. \<open>field_text\<close> is the text of the
  node reached.
\<close>

fun node :: "element \<Rightarrow> string list \<Rightarrow> element option" where
  "node e [] = Some e"
| "node e (t # ts) = (case find_el e t of None \<Rightarrow> None | Some c \<Rightarrow> node c ts)"

definition field_text :: "element \<Rightarrow> string list \<Rightarrow> string option" where
  "field_text e path = (case node e path of None \<Rightarrow> None | Some c \<Rightarrow> text_attr c)"

text \<open>The record and the report that the lookups give, written without the error plumbing.\<close>

definition record_of :: "element \<Rightarrow> parsed_record" where
  "record_of e =
     \<lparr> rc_source_ip = field_text e [''row'', ''source_ip''],
       rc_count = field_text e [''row'', ''count''],
       rc_policy_evaluated =
         \<lparr> pe_disposition = field_text e [''row'', ''policy_evaluated'', ''disposition''],
           pe_dkim = field_text e [''row'', ''policy_evaluated'', ''dkim''],
           pe_spf = field_text e [''row'', ''policy_evaluated'', ''spf''] \<rparr>,
       rc_identifiers = \<lparr> id_header_from = field_text e [''identifiers'', ''header_from''] \<rparr>,
       rc_auth_results =
         \<lparr> ar_dkim = field_text e [''auth_results'', ''dkim'', ''domain''],
           ar_spf = field_text e [''auth_results'', ''spf'', ''domain''] \<rparr> \<rparr>"

definition report_of :: "element \<Rightarrow> report" where
  "report_of root =
     \<lparr> report_metadata =
         \<lparr> md_org_name = field_text root [''report_metadata'', ''org_name''],
           md_email = field_text root [''report_metadata'', ''email''],
           md_report_id = field_text root [''report_metadata'', ''report_id''],
           md_date_range =
             \<lparr> dr_begin = field_text root [''report_metadata'', ''date_range'', ''begin''],
               dr_end = field_text root [''report_metadata'', ''date_range'', ''end''] \<rparr> \<rparr>,
       policy_published =
         \<lparr> pp_domain = field_text root [''policy_published'', ''domain''],
           pp_adkim = field_text root [''policy_published'', ''adkim''],
           pp_aspf = field_text root [''policy_published'', ''aspf''],
           pp_p = field_text root [''policy_published'', ''p''],
           pp_sp = field_text root [''policy_published'', ''sp''],
           pp_pct = field_text root [''policy_published'', ''pct''] \<rparr>,
       records = map record_of (findall root ''record'') \<rparr>"

text \<open>A leaf element that is there but has no text: \<open><org_name/>\<close>.\<close>

definition present_but_empty :: "element \<Rightarrow> string list \<Rightarrow> bool" where
  "present_but_empty e path = (case node e path of None \<Rightarrow> False | Some c \<Rightarrow> text_attr c = None)"

text \<open>The record whose fields are all \<open>None\<close>.\<close>

definition null_record :: parsed_record where
  "null_record =
     \<lparr> rc_source_ip = None, rc_count = None,
       rc_policy_evaluated = \<lparr> pe_disposition = None, pe_dkim = None, pe_spf = None \<rparr>,
       rc_identifiers = \<lparr> id_header_from = None \<rparr>,
       rc_auth_results = \<lparr> ar_dkim = None, ar_spf = None \<rparr> \<rparr>"

text \<open>
  Dropping repeated siblings: \<open>drop_repeats keep cs\<close> keeps, of the children \<open>cs\<close>, the
  first one of every tag and drops the later ones with the same tag, but for the tags that
  \<open>keep\<close> accepts, whose elements all stay. \<open>ignore_below\<close> drops the repeated siblings at
  every level of a tree. \<open>ignore_repeats\<close> does so for a document: under the root every
  \<open>record\<close> stays, and below that only the first element of every tag.
\<close>

fun drop_repeats :: "(string \<Rightarrow> bool) \<Rightarrow> element list \<Rightarrow> element list" where
  "drop_repeats keep [] = []"
| "drop_repeats keep (c # cs) =
     c # drop_repeats keep (if keep (tag c) then cs else filter (\<lambda>d. tag d \<noteq> tag c) cs)"

lemma drop_repeats_subset: "set (drop_repeats keep cs) \<subseteq> set cs"
  by (induction keep cs rule: drop_repeats.induct) (auto split: if_splits)

function ignore_below :: "element \<Rightarrow> element" where
  "ignore_below (Element t x cs) =
     Element t x (map ignore_below (drop_repeats (\<lambda>_. False) cs))"
  by pat_completeness auto
termination
proof (relation "measure size")
  show "wf (measure size)" by simp
next
  fix t :: string and x :: "string option" and cs :: "element list" and c :: element
  assume "c \<in> set (drop_repeats (\<lambda>_. False) cs)"
  then have "c \<in> set cs" using drop_repeats_subset by blast
  then have "size c \<le> size_list size cs" by (simp add: size_list_estimation')
  then show "(c, Element t x cs) \<in> measure size" by simp
qed

definition ignore_repeats :: "element \<Rightarrow> element" where
  "ignore_repeats root =
     Element (tag root) (text_attr root)
       (map ignore_below (drop_repeats (\<lambda>t. t = ''record'') (children root)))"

text \<open>A report in which every leaf element is there and empty.\<close>

definition empty_leaves_document :: element where
  "empty_leaves_document =
     Element ''feedback'' None
       [Element ''report_metadata'' None
          [Element ''org_name'' None [], Element ''email'' None [],
           Element ''report_id'' None [],
           Element ''date_range'' None [Element ''begin'' None [], Element ''end'' None []]],
        Element ''policy_published'' None
          [Element ''domain'' None [], Element ''adkim'' None [], Element ''aspf'' None [],
           Element ''p'' None [], Element ''sp'' None [], Element ''pct'' None []],
        Element ''record'' None
          [Element ''row'' None
             [Element ''source_ip'' None [], Element ''count'' None [],
              Element ''policy_evaluated'' None
                [Element ''disposition'' None [], Element ''dkim'' None [],
                 Element ''spf'' None []]],
           Element ''identifiers'' None [Element ''header_from'' None []],
           Element ''auth_results'' None
             [Element ''dkim'' None [Element ''domain'' None []],
              Element ''spf'' None [Element ''domain'' None []]]]]"

text \<open>
  A report with repeated siblings: two \<open>report_metadata\<close>, the first of which has two
  \<open>org_name\<close> and no \<open>email\<close>; two \<open>record\<close>, the first with two \<open>dkim\<close> under
  \<open>auth_results\<close>.
\<close>

definition repeated_siblings_document :: element where
  "repeated_siblings_document =
     Element ''feedback'' None
       [Element ''report_metadata'' None
          [Element ''org_name'' (Some ''first'') [], Element ''org_name'' (Some ''second'') []],
        Element ''report_metadata'' None
          [Element ''org_name'' (Some ''third'') [], Element ''email'' (Some ''a@b.example'') []],
        Element ''record'' None
          [Element ''auth_results'' None
             [Element ''dkim'' None [Element ''domain'' (Some ''one.example'') []],
              Element ''dkim'' None [Element ''domain'' (Some ''two.example'') []]]],
        Element ''record'' None []]"

section \<open>Flattening the reports and writing the CSV file\<close>

text \<open>
  A flat row is the Python dictionary of lines 155 to 175: its keys in the order in which
  they were inserted, each with its value, \<open>None\<close> for null.
\<close>

type_synonym flat_row = "(string \<times> string option) list"

definition make_row :: "metadata \<Rightarrow> policy \<Rightarrow> parsed_record \<Rightarrow> flat_row" where
  "make_row metadata policy record =
     [(''org_name'', md_org_name metadata),
      (''email'', md_email metadata),
      (''report_id'', md_report_id metadata),
      (''date_range_begin'', dr_begin (md_date_range metadata)),
      (''date_range_end'', dr_end (md_date_range metadata)),
      (''domain'', pp_domain policy),
      (''adkim'', pp_adkim policy),
      (''aspf'', pp_aspf policy),
      (''policy_p'', pp_p policy),
      (''policy_sp'', pp_sp policy),
      (''policy_pct'', pp_pct policy),
      (''source_ip'', rc_source_ip record),
      (''count'', rc_count record),
      (''disposition'', pe_disposition (rc_policy_evaluated record)),
      (''dkim'', pe_dkim (rc_policy_evaluated record)),
      (''spf'', pe_spf (rc_policy_evaluated record)),
      (''header_from'', id_header_from (rc_identifiers record)),
      (''auth_results_dkim'', ar_dkim (rc_auth_results record)),
      (''auth_results_spf'', ar_spf (rc_auth_results record))]"

text \<open>The inner loop, lines 154 to 176, and the outer loop, lines 151 to 176.\<close>

fun append_record_rows ::
  "metadata \<Rightarrow> policy \<Rightarrow> parsed_record list \<Rightarrow> flat_row list \<Rightarrow> flat_row list" where
  "append_record_rows metadata policy [] rows = rows"
| "append_record_rows metadata policy (record # rest) rows =
     append_record_rows metadata policy rest (rows @ [make_row metadata policy record])"

fun append_report_rows :: "report list \<Rightarrow> flat_row list \<Rightarrow> flat_row list" where
  "append_report_rows [] rows = rows"
| "append_report_rows (report # rest) rows =
     append_report_rows rest
       (append_record_rows (report_metadata report) (policy_published report)
          (records report) rows)"

definition flatten_reports :: "report list \<Rightarrow> flat_row list" where
  "flatten_reports reports = append_report_rows reports []"

text \<open>
  \<open>pd.DataFrame(rows)\<close> on a list of dictionaries: the columns are the keys of the
  dictionaries in the order in which they are first seen, so an empty list gives a frame
  with no column; a row has, in every column, the value under that key, and null where
  it has no such key.
\<close>

record dataframe =
  df_columns :: "string list"
  df_rows :: "string option list list"

definition first_seen :: "string list \<Rightarrow> string list" where
  "first_seen ks = fold (\<lambda>k seen. if k \<in> set seen then seen else seen @ [k]) ks []"

definition cell_of :: "flat_row \<Rightarrow> string \<Rightarrow> string option" where
  "cell_of row c = (case map_of row c of None \<Rightarrow> None | Some v \<Rightarrow> v)"

definition DataFrame :: "flat_row list \<Rightarrow> dataframe" where
  "DataFrame rows =
     (let cols = first_seen (concat (map (map fst) rows))
      in \<lparr> df_columns = cols, df_rows = map (\<lambda>row. map (cell_of row) cols) rows \<rparr>)"

text \<open>
  \<open>df.to_csv(csv_file, index=False)\<close>: the header line with the column names, then one line
  for every row, a null cell written as the empty string. The file is given as its lines,
  each the list of its cells.
\<close>

definition render_cell :: "string option \<Rightarrow> string" where
  "render_cell v = (case v of None \<Rightarrow> [] | Some s \<Rightarrow> s)"

definition to_csv :: "dataframe \<Rightarrow> string list list" where
  "to_csv df = df_columns df # map (map render_cell) (df_rows df)"

text \<open>\<open>save_reports_to_csv(reports, csv_file)\<close>, lines 143 to 179: what is written to the file.\<close>

definition save_reports_to_csv :: "report list \<Rightarrow> string list list" where
  "save_reports_to_csv reports = to_csv (DataFrame (flatten_reports reports))"

text \<open>The record whose fields are the eight record cells of a flat row.\<close>

definition row_record :: "flat_row \<Rightarrow> parsed_record" where
  "row_record row =
     \<lparr> rc_source_ip = cell_of row ''source_ip'',
       rc_count = cell_of row ''count'',
       rc_policy_evaluated =
         \<lparr> pe_disposition = cell_of row ''disposition'',
           pe_dkim = cell_of row ''dkim'',
           pe_spf = cell_of row ''spf'' \<rparr>,
       rc_identifiers = \<lparr> id_header_from = cell_of row ''header_from'' \<rparr>,
       rc_auth_results =
         \<lparr> ar_dkim = cell_of row ''auth_results_dkim'',
           ar_spf = cell_of row ''auth_results_spf'' \<rparr> \<rparr>"

text \<open>The number of rows that the reports before the \<open>i\<close>-th one give.\<close>

definition rows_before :: "report list \<Rightarrow> nat \<Rightarrow> nat" where
  "rows_before reports i = sum_list (map (\<lambda>r. length (records r)) (take i reports))"

text \<open>A report of one organisation, with one record for every source address given.\<close>

definition sample_report :: "string \<Rightarrow> string list \<Rightarrow> report" where
  "sample_report org ips =
     \<lparr> report_metadata =
         \<lparr> md_org_name = Some org, md_email = None, md_report_id = None,
           md_date_range = \<lparr> dr_begin = None, dr_end = None \<rparr> \<rparr>,
       policy_published =
         \<lparr> pp_domain = None, pp_adkim = None, pp_aspf = None,
           pp_p = None, pp_sp = None, pp_pct = None \<rparr>,
       records = map (\<lambda>ip. null_record \<lparr> rc_source_ip := Some ip \<rparr>) ips \<rparr>"

text \<open>
  A report whose three \<open>record\<close> elements are neither sorted nor distinct, with another
  element between them.
\<close>

definition unsorted_records_document :: element where
  "unsorted_records_document =
     Element ''feedback'' None
       [Element ''record'' None [Element ''row'' None [Element ''source_ip'' (Some ''192.0.2.9'') []]],
        Element ''record'' None [Element ''row'' None [Element ''source_ip'' (Some ''192.0.2.1'') []]],
        Element ''policy_published'' None [],
        Element ''record'' None [Element ''row'' None [Element ''source_ip'' (Some ''192.0.2.9'') []]]]"

section \<open>The chart of the top source addresses\<close>









section \<open>The working directory and its cleanup\<close>

text \<open>
  The files are a tree: a file with its content, or a directory with its entries, each a
  name and a tree. A path is the list of the names from the top of the tree, so that
  \<open>os.path.join(root, file)\<close> is \<open>root @ [file]\<close> for a name that is not empty, and
  \<open>os.path.basename\<close> is the last name.
\<close>

type_synonym path = "string list"

datatype fs_tree = File string | Dir "(string \<times> fs_tree) list"

fun lookup :: "fs_tree \<Rightarrow> path \<Rightarrow> fs_tree option" where
  "lookup n [] = Some n"
| "lookup (File c) (a # p) = None"
| "lookup (Dir es) (a # p) = (case map_of es a of None \<Rightarrow> None | Some x \<Rightarrow> lookup x p)"

text \<open>
  What can be seen at a path: nothing, a file with its content, or a directory.
\<close>

datatype kind = IsFile string | IsDir

definition stat :: "fs_tree \<Rightarrow> path \<Rightarrow> kind option" where
  "stat fs p =
     (case lookup fs p of
        None \<Rightarrow> None
      | Some (File c) \<Rightarrow> Some (IsFile c)
      | Some (Dir es) \<Rightarrow> Some IsDir)"

text \<open>In a directory no two entries have the same name.\<close>

fun wf_tree :: "fs_tree \<Rightarrow> bool" where
  "wf_tree (File c) = True"
| "wf_tree (Dir es) = (distinct (map fst es) \<and> (\<forall>e \<in> set es. wf_tree (snd e)))"

fun is_dir :: "fs_tree \<Rightarrow> bool" where
  "is_dir (Dir es) = True"
| "is_dir (File c) = False"

text \<open>\<open>str.endswith(suffix)\<close>.\<close>

definition endswith :: "string \<Rightarrow> string \<Rightarrow> bool" where
  "endswith s suffix =
     (length suffix \<le> length s \<and> drop (length s - length suffix) s = suffix)"

text \<open>
  \<open>os.walk(top)\<close>, top down: for a directory the triple of its path, the names of its
  subdirectories and the names of its other entries, then the triples of the
  subdirectories in turn. A path that is no directory gives nothing: the error of the
  listing is ignored. The generator lists a directory only when the loop reaches it; the
  loop of the cleanup removes files only, and only from the directory listed last, so the
  triples are those of the tree as it is when the loop starts.
\<close>

fun walk :: "path \<Rightarrow> fs_tree \<Rightarrow> (path \<times> string list \<times> string list) list" where
  "walk dirpath (File c) = []"
| "walk dirpath (Dir es) =
     (dirpath,
      map fst (filter (\<lambda>e. is_dir (snd e)) es),
      map fst (filter (\<lambda>e. \<not> is_dir (snd e)) es))
     # concat (map (\<lambda>e. walk (dirpath @ [fst e]) (snd e)) (filter (\<lambda>e. is_dir (snd e)) es))"

definition os_walk :: "fs_tree \<Rightarrow> path \<Rightarrow> (path \<times> string list \<times> string list) list" where
  "os_walk fs dirpath = (case lookup fs dirpath of None \<Rightarrow> [] | Some n \<Rightarrow> walk dirpath n)"

text \<open>
  \<open>os.remove(path)\<close>: removes the file at the path, and raises when nothing is there, when
  a directory is there, or when the path runs through a file.
\<close>

fun os_remove :: "path \<Rightarrow> fs_tree \<Rightarrow> error + fs_tree" where
  "os_remove [] n = Inl IsADirectoryError"
| "os_remove (a # p) (File c) = Inl NotADirectoryError"
| "os_remove (a # p) (Dir es) =
     (case map_of es a of
        None \<Rightarrow> Inl FileNotFoundError
      | Some x \<Rightarrow>
          (if p = [] then
             (case x of
                File c \<Rightarrow> Inr (Dir (AList.delete a es))
              | Dir ds \<Rightarrow> Inl IsADirectoryError)
           else
             (case os_remove p x of
                Inl e \<Rightarrow> Inl e
              | Inr x' \<Rightarrow> Inr (Dir (AList.update a x' es)))))"

text \<open>
  \<open>cleanup_extracted_files(output_dir)\<close>, lines 202 to 211. A step on the files returns
  what it raised or returned, together with the files as it leaves them. The inner loop
  is over the file names of one triple, the outer loop over the triples.
\<close>

fun remove_xml_in :: "path \<Rightarrow> string list \<Rightarrow> fs_tree \<Rightarrow> (error + unit) \<times> fs_tree" where
  "remove_xml_in root [] fs = (Inr (), fs)"
| "remove_xml_in root (file # files) fs =
     (if endswith file ''.xml'' then
        (case os_remove (root @ [file]) fs of
           Inl e \<Rightarrow> (Inl e, fs)
         | Inr fs' \<Rightarrow> remove_xml_in root files fs')
      else remove_xml_in root files fs)"

fun cleanup_walk ::
  "(path \<times> string list \<times> string list) list \<Rightarrow> fs_tree \<Rightarrow> (error + unit) \<times> fs_tree" where
  "cleanup_walk [] fs = (Inr (), fs)"
| "cleanup_walk ((root, dirs, files) # rest) fs =
     (case remove_xml_in root files fs of
        (Inl e, fs') \<Rightarrow> (Inl e, fs')
      | (Inr u, fs') \<Rightarrow> cleanup_walk rest fs')"

definition cleanup_extracted_files :: "path \<Rightarrow> fs_tree \<Rightarrow> (error + unit) \<times> fs_tree" where
  "cleanup_extracted_files output_dir fs = cleanup_walk (os_walk fs output_dir) fs"

text \<open>
  The script, lines 221 to 227. The three calls of the \<open>try\<close> block work through the
  libraries (zipfile, gzip, pandas, matplotlib), so they are parameters here: each is any
  step on the files, which may raise. The block stops at the first call that raises. The
  \<open>finally\<close> clause then runs the cleanup on the files as the block left them; the script
  ends with what the block raised or returned, unless the cleanup itself raises.
\<close>

definition try_block ::
  "(fs_tree \<Rightarrow> (error + 'r) \<times> fs_tree) \<Rightarrow> ('r \<Rightarrow> fs_tree \<Rightarrow> (error + unit) \<times> fs_tree) \<Rightarrow>
   (fs_tree \<Rightarrow> (error + unit) \<times> fs_tree) \<Rightarrow> fs_tree \<Rightarrow> (error + unit) \<times> fs_tree" where
  "try_block process_dmarc_reports_from_directory save_reports read_csv_and_display_chart fs =
     (case process_dmarc_reports_from_directory fs of
        (Inl e, fs1) \<Rightarrow> (Inl e, fs1)
      | (Inr reports, fs1) \<Rightarrow>
          (case save_reports reports fs1 of
             (Inl e, fs2) \<Rightarrow> (Inl e, fs2)
           | (Inr u, fs2) \<Rightarrow> read_csv_and_display_chart fs2))"

definition main_script ::
  "(fs_tree \<Rightarrow> (error + 'r) \<times> fs_tree) \<Rightarrow> ('r \<Rightarrow> fs_tree \<Rightarrow> (error + unit) \<times> fs_tree) \<Rightarrow>
   (fs_tree \<Rightarrow> (error + unit) \<times> fs_tree) \<Rightarrow> path \<Rightarrow> fs_tree \<Rightarrow> (error + unit) \<times> fs_tree" where
  "main_script process_dmarc_reports_from_directory save_reports read_csv_and_display_chart
     output_dir fs =
     (case try_block process_dmarc_reports_from_directory save_reports
             read_csv_and_display_chart fs of
        (outcome, fs1) \<Rightarrow>
          (case cleanup_extracted_files output_dir fs1 of
             (Inl e, fs2) \<Rightarrow> (Inl e, fs2)
           | (Inr u, fs2) \<Rightarrow> (outcome, fs2)))"

text \<open>
  The paths that the cleanup is to remove: the files below \<open>output_dir\<close>, at any depth,
  whose name ends in \<open>.xml\<close>.
\<close>

definition xml_file_under :: "fs_tree \<Rightarrow> path \<Rightarrow> path \<Rightarrow> bool" where
  "xml_file_under fs output_dir p =
     (length output_dir < length p \<and> take (length output_dir) p = output_dir
      \<and> (case lookup fs p of Some (File c) \<Rightarrow> True | _ \<Rightarrow> False)
      \<and> endswith (last p) ''.xml'')"

text \<open>
  For the proofs: the paths of the files of a tree, from its top, in the order of the
  walk; the paths of the files that a list of triples names; and the removal of a list of
  paths one after the other.
\<close>

fun rel_files :: "fs_tree \<Rightarrow> path list" where
  "rel_files (File c) = []"
| "rel_files (Dir es) =
     map (\<lambda>e. [fst e]) (filter (\<lambda>e. \<not> is_dir (snd e)) es)
     @ concat (map (\<lambda>e. map ((#) (fst e)) (rel_files (snd e))) (filter (\<lambda>e. is_dir (snd e)) es))"

definition file_paths :: "(path \<times> string list \<times> string list) list \<Rightarrow> path list" where
  "file_paths ws = concat (map (\<lambda>w. map (\<lambda>f. fst w @ [f]) (snd (snd w))) ws)"

fun remove_paths :: "path list \<Rightarrow> fs_tree \<Rightarrow> (error + unit) \<times> fs_tree" where
  "remove_paths [] fs = (Inr (), fs)"
| "remove_paths (p # ps) fs =
     (case os_remove p fs of
        Inl e \<Rightarrow> (Inl e, fs)
      | Inr fs' \<Rightarrow> remove_paths ps fs')"

text \<open>
  Working files for the examples: two reports and a text file at the top, a report in a
  subdirectory, and a directory whose own name ends in \<open>.xml\<close>.
\<close>

definition sample_files :: fs_tree where
  "sample_files =
     Dir [(''a.xml'', File ''<feedback/>''),
          (''notes.txt'', File ''keep''),
          (''sub'', Dir [(''b.xml'', File ''<feedback/>''), (''c.xml.gz'', File ''packed'')]),
          (''d.xml'', Dir [(''e.txt'', File ''keep'')])]"

section \<open>The name of an unpacked gzip file\<close>

text \<open>
  \<open>str.replace(old, new)\<close>: every occurrence of \<open>old\<close> is replaced, from left to right
  and without overlap. With an empty \<open>old\<close>, \<open>new\<close> is put before every character and at
  the end.
\<close>

function replace_from :: "string \<Rightarrow> string \<Rightarrow> string \<Rightarrow> string" where
  "replace_from [] old new = []"
| "replace_from (c # cs) old new =
     (if old \<noteq> [] \<and> take (length old) (c # cs) = old
      then new @ replace_from (drop (length old) (c # cs)) old new
      else c # replace_from cs old new)"
  by pat_completeness auto
termination
  by (relation "measure (\<lambda>(s, old, new). length s)") (auto simp add: neq_Nil_conv)

definition replace :: "string \<Rightarrow> string \<Rightarrow> string \<Rightarrow> string" where
  "replace s old new =
     (if old = [] then new @ concat (map (\<lambda>c. c # new) s) else replace_from s old new)"

text \<open>\<open>os.path.basename\<close> of a path given as its list of names.\<close>

definition basename :: "path \<Rightarrow> string" where
  "basename p = (if p = [] then [] else last p)"

text \<open>
  The path to which \<open>decompress_gz_files\<close> writes the content of one gzip file, line 30:
  \<open>os.path.join(output_dir, os.path.basename(gz_file).replace('.gz', ''))\<close>.
\<close>

definition gz_output_path :: "path \<Rightarrow> path \<Rightarrow> path" where
  "gz_output_path output_dir gz_file = output_dir @ [replace (basename gz_file) ''.gz'' []]"

text \<open>The name with its last three characters, the suffix \<open>.gz\<close>, taken off.\<close>

definition strip_gz_suffix :: "string \<Rightarrow> string" where
  "strip_gz_suffix name = (if endswith name ''.gz'' then take (length name - 3) name else name)"

section \<open>The parser never raises on a tree\<close>

lemma get_text_or_none_None: "get_text_or_none None s = Inr None"
  by (simp add: get_text_or_none_def)

lemma get_text_or_none_Some: "get_text_or_none (Some e) s = Inr (field_text e [s])"
  by (simp add: get_text_or_none_def call_find_def read_text_def bind_res_def field_text_def
      split: option.splits)

lemma get_text_or_none_find:
  "get_text_or_none (find_el e a) s = Inr (field_text e [a, s])"
  by (cases "find_el e a")
    (simp_all add: get_text_or_none_None get_text_or_none_Some field_text_def)

lemma guarded_text_find:
  "guarded_text (find_el e a) b s = Inr (field_text e [a, b, s])"
proof (cases "find_el e a")
  case None
  then show ?thesis by (simp add: guarded_text_def field_text_def)
next
  case (Some c)
  then show ?thesis
    by (simp add: guarded_text_def call_find_def bind_res_def get_text_or_none_find
        field_text_def)
qed

lemma bind_res_Inr: "bind_res (Inr v) f = f v"
  by (simp add: bind_res_def)

lemma parse_record_eq: "parse_record e = Inr (record_of e)"
  by (simp add: parse_record_def record_of_def Let_def get_text_or_none_find
      guarded_text_find bind_res_Inr)

lemma parse_records_eq: "parse_records es acc = Inr (acc @ map record_of es)"
  by (induction es arbitrary: acc) (simp_all add: parse_record_eq bind_res_Inr)

lemma parse_dmarc_xml_Document: "parse_dmarc_xml (Document root) = Inr (report_of root)"
  by (simp add: parse_dmarc_xml_def ET_parse_def report_of_def Let_def get_text_or_none_find
      guarded_text_find parse_records_eq bind_res_Inr)



section \<open>Missing optional nodes\<close>

lemma field_text_absent_prefix:
  "node e p = None \<Longrightarrow> field_text e (p @ q) = None"
proof (induction p arbitrary: e)
  case Nil
  then show ?case by simp
next
  case (Cons t ts)
  then show ?case by (cases "find_el e t") (simp_all add: field_text_def)
qed

lemma field_text_absent2: "node e [a] = None \<Longrightarrow> field_text e [a, b] = None"
  using field_text_absent_prefix [of e "[a]" "[b]"] by simp

lemma field_text_absent3: "node e [a] = None \<Longrightarrow> field_text e [a, b, c] = None"
  using field_text_absent_prefix [of e "[a]" "[b, c]"] by simp

lemma field_text_absent23: "node e [a, b] = None \<Longrightarrow> field_text e [a, b, c] = None"
  using field_text_absent_prefix [of e "[a, b]" "[c]"] by simp

lemmas field_text_absent = field_text_absent2 field_text_absent3 field_text_absent23

lemma records_report_of_nth:
  "i < length (findall root ''record'') \<Longrightarrow>
     records (report_of root) ! i = record_of (findall root ''record'' ! i)"
  by (simp add: report_of_def)

lemma length_records_report_of:
  "length (records (report_of root)) = length (findall root ''record'')"
  by (simp add: report_of_def)

lemma report_of_absent_metadata:
  "node root [''report_metadata''] = None \<Longrightarrow>
           md_org_name (report_metadata (report_of root)) = None
         \<and> md_email (report_metadata (report_of root)) = None
         \<and> md_report_id (report_metadata (report_of root)) = None
         \<and> dr_begin (md_date_range (report_metadata (report_of root))) = None
         \<and> dr_end (md_date_range (report_metadata (report_of root))) = None"
  by (simp add: report_of_def field_text_absent)

lemma report_of_absent_date_range:
  "node root [''report_metadata'', ''date_range''] = None \<Longrightarrow>
           dr_begin (md_date_range (report_metadata (report_of root))) = None
         \<and> dr_end (md_date_range (report_metadata (report_of root))) = None"
  by (simp add: report_of_def field_text_absent)

lemma report_of_absent_policy:
  "node root [''policy_published''] = None \<Longrightarrow>
           pp_domain (policy_published (report_of root)) = None
         \<and> pp_adkim (policy_published (report_of root)) = None
         \<and> pp_aspf (policy_published (report_of root)) = None
         \<and> pp_p (policy_published (report_of root)) = None
         \<and> pp_sp (policy_published (report_of root)) = None
         \<and> pp_pct (policy_published (report_of root)) = None"
  by (simp add: report_of_def field_text_absent)

lemma record_of_absent_row:
  "node e [''row''] = None \<Longrightarrow>
      rc_source_ip (record_of e) = None
    \<and> rc_count (record_of e) = None
    \<and> pe_disposition (rc_policy_evaluated (record_of e)) = None
    \<and> pe_dkim (rc_policy_evaluated (record_of e)) = None
    \<and> pe_spf (rc_policy_evaluated (record_of e)) = None"
  by (simp add: record_of_def field_text_absent)

lemma record_of_absent_policy_evaluated:
  "node e [''row'', ''policy_evaluated''] = None \<Longrightarrow>
      pe_disposition (rc_policy_evaluated (record_of e)) = None
    \<and> pe_dkim (rc_policy_evaluated (record_of e)) = None
    \<and> pe_spf (rc_policy_evaluated (record_of e)) = None"
  by (simp add: record_of_def field_text_absent)

lemma record_of_absent_identifiers:
  "node e [''identifiers''] = None \<Longrightarrow> id_header_from (rc_identifiers (record_of e)) = None"
  by (simp add: record_of_def field_text_absent)

lemma record_of_absent_auth_results:
  "node e [''auth_results''] = None \<Longrightarrow>
      ar_dkim (rc_auth_results (record_of e)) = None
    \<and> ar_spf (rc_auth_results (record_of e)) = None"
  by (simp add: record_of_def field_text_absent)

lemma record_of_absent_auth_dkim:
  "node e [''auth_results'', ''dkim''] = None \<Longrightarrow> ar_dkim (rc_auth_results (record_of e)) = None"
  by (simp add: record_of_def field_text_absent)

lemma record_of_absent_auth_spf:
  "node e [''auth_results'', ''spf''] = None \<Longrightarrow> ar_spf (rc_auth_results (record_of e)) = None"
  by (simp add: record_of_def field_text_absent)

lemma record_of_absent_all:
  "node e [''row''] = None \<Longrightarrow> node e [''identifiers''] = None \<Longrightarrow>
   node e [''auth_results''] = None \<Longrightarrow> record_of e = null_record"
  by (simp add: record_of_def null_record_def field_text_absent)

text \<open>
  Claim C1. On every well-formed document \<open>parse_dmarc_xml\<close> returns a report and does not
  raise, whichever optional nodes are missing. It has one record for every \<open>record\<close>
  element, none skipped. When \<open>report_metadata\<close> is absent, the five metadata fields are
  \<open>None\<close>; when its \<open>date_range\<close> is absent at either level, \<open>begin\<close> and \<open>end\<close> are \<open>None\<close>;
  when \<open>policy_published\<close> is absent, its six fields are \<open>None\<close>. For the record read from
  the \<open>i\<close>-th \<open>record\<close> element: an absent \<open>row\<close> gives \<open>None\<close> for \<open>source_ip\<close>, \<open>count\<close> and the
  three evaluated results; an absent \<open>policy_evaluated\<close> gives \<open>None\<close> for the three
  evaluated results; an absent \<open>identifiers\<close> gives \<open>None\<close> for \<open>header_from\<close>; an absent
  \<open>auth_results\<close>, or an absent \<open>dkim\<close> or \<open>spf\<close> under it, gives \<open>None\<close> for the domain read
  beneath it. A record element with no \<open>row\<close>, \<open>identifiers\<close> and \<open>auth_results\<close> child gives
  the record whose fields are all \<open>None\<close>. The value is \<open>None\<close> itself, never a default.
\<close>

theorem parse_missing_nodes_yield_null:
  "\<exists>rep. parse_dmarc_xml (Document root) = Inr rep
     \<and> length (records rep) = length (findall root ''record'')
     \<and> (node root [''report_metadata''] = None \<longrightarrow>
           md_org_name (report_metadata rep) = None
         \<and> md_email (report_metadata rep) = None
         \<and> md_report_id (report_metadata rep) = None
         \<and> dr_begin (md_date_range (report_metadata rep)) = None
         \<and> dr_end (md_date_range (report_metadata rep)) = None)
     \<and> (node root [''report_metadata'', ''date_range''] = None \<longrightarrow>
           dr_begin (md_date_range (report_metadata rep)) = None
         \<and> dr_end (md_date_range (report_metadata rep)) = None)
     \<and> (node root [''policy_published''] = None \<longrightarrow>
           pp_domain (policy_published rep) = None
         \<and> pp_adkim (policy_published rep) = None
         \<and> pp_aspf (policy_published rep) = None
         \<and> pp_p (policy_published rep) = None
         \<and> pp_sp (policy_published rep) = None
         \<and> pp_pct (policy_published rep) = None)
     \<and> (\<forall>i < length (findall root ''record'').
           (node (findall root ''record'' ! i) [''row''] = None \<longrightarrow>
                rc_source_ip (records rep ! i) = None
              \<and> rc_count (records rep ! i) = None
              \<and> pe_disposition (rc_policy_evaluated (records rep ! i)) = None
              \<and> pe_dkim (rc_policy_evaluated (records rep ! i)) = None
              \<and> pe_spf (rc_policy_evaluated (records rep ! i)) = None)
         \<and> (node (findall root ''record'' ! i) [''row'', ''policy_evaluated''] = None \<longrightarrow>
                pe_disposition (rc_policy_evaluated (records rep ! i)) = None
              \<and> pe_dkim (rc_policy_evaluated (records rep ! i)) = None
              \<and> pe_spf (rc_policy_evaluated (records rep ! i)) = None)
         \<and> (node (findall root ''record'' ! i) [''identifiers''] = None \<longrightarrow>
                id_header_from (rc_identifiers (records rep ! i)) = None)
         \<and> (node (findall root ''record'' ! i) [''auth_results''] = None \<longrightarrow>
                ar_dkim (rc_auth_results (records rep ! i)) = None
              \<and> ar_spf (rc_auth_results (records rep ! i)) = None)
         \<and> (node (findall root ''record'' ! i) [''auth_results'', ''dkim''] = None \<longrightarrow>
                ar_dkim (rc_auth_results (records rep ! i)) = None)
         \<and> (node (findall root ''record'' ! i) [''auth_results'', ''spf''] = None \<longrightarrow>
                ar_spf (rc_auth_results (records rep ! i)) = None)
         \<and> (node (findall root ''record'' ! i) [''row''] = None
              \<and> node (findall root ''record'' ! i) [''identifiers''] = None
              \<and> node (findall root ''record'' ! i) [''auth_results''] = None \<longrightarrow>
                records rep ! i = null_record))"
proof (intro exI [of _ "report_of root"] conjI allI impI)
  show "parse_dmarc_xml (Document root) = Inr (report_of root)"
    by (rule parse_dmarc_xml_Document)
qed (simp_all only: records_report_of_nth length_records_report_of
      report_of_absent_metadata report_of_absent_date_range report_of_absent_policy
      record_of_absent_row record_of_absent_policy_evaluated record_of_absent_identifiers
      record_of_absent_auth_results record_of_absent_auth_dkim record_of_absent_auth_spf
      record_of_absent_all)

theorem parse_missing_nodes_yield_null_witness:
  "node (Element ''feedback'' None [Element ''record'' None []]) [''report_metadata''] = None
   \<and> node (Element ''feedback'' None [Element ''record'' None []]) [''policy_published''] = None
   \<and> findall (Element ''feedback'' None [Element ''record'' None []]) ''record''
       = [Element ''record'' None []]
   \<and> node (Element ''record'' None []) [''row''] = None
   \<and> node (Element ''record'' None []) [''identifiers''] = None
   \<and> node (Element ''record'' None []) [''auth_results''] = None
   \<and> (\<exists>rep. parse_dmarc_xml (Document (Element ''feedback'' None [Element ''record'' None []]))
              = Inr rep
          \<and> md_org_name (report_metadata rep) = None
          \<and> md_email (report_metadata rep) = None
          \<and> md_report_id (report_metadata rep) = None
          \<and> dr_begin (md_date_range (report_metadata rep)) = None
          \<and> dr_end (md_date_range (report_metadata rep)) = None
          \<and> pp_domain (policy_published rep) = None
          \<and> pp_adkim (policy_published rep) = None
          \<and> pp_aspf (policy_published rep) = None
          \<and> pp_p (policy_published rep) = None
          \<and> pp_sp (policy_published rep) = None
          \<and> pp_pct (policy_published rep) = None
          \<and> length (records rep) = 1
          \<and> records rep ! 0 = null_record)"
  using parse_missing_nodes_yield_null [of "Element ''feedback'' None [Element ''record'' None []]"]
  apply (simp add: findall_def find_el_def)
  apply (erule exE)
  subgoal for rep by (rule exI [of _ rep]) simp
  done

section \<open>When the parser raises\<close>




section \<open>Elements without text\<close>

lemma report_of_fields:
  "md_org_name (report_metadata (report_of root)) = field_text root [''report_metadata'', ''org_name'']"
  "md_email (report_metadata (report_of root)) = field_text root [''report_metadata'', ''email'']"
  "md_report_id (report_metadata (report_of root)) = field_text root [''report_metadata'', ''report_id'']"
  "dr_begin (md_date_range (report_metadata (report_of root)))
     = field_text root [''report_metadata'', ''date_range'', ''begin'']"
  "dr_end (md_date_range (report_metadata (report_of root)))
     = field_text root [''report_metadata'', ''date_range'', ''end'']"
  "pp_domain (policy_published (report_of root)) = field_text root [''policy_published'', ''domain'']"
  "pp_adkim (policy_published (report_of root)) = field_text root [''policy_published'', ''adkim'']"
  "pp_aspf (policy_published (report_of root)) = field_text root [''policy_published'', ''aspf'']"
  "pp_p (policy_published (report_of root)) = field_text root [''policy_published'', ''p'']"
  "pp_sp (policy_published (report_of root)) = field_text root [''policy_published'', ''sp'']"
  "pp_pct (policy_published (report_of root)) = field_text root [''policy_published'', ''pct'']"
  by (simp_all add: report_of_def)

lemma record_of_fields:
  "rc_source_ip (record_of e) = field_text e [''row'', ''source_ip'']"
  "rc_count (record_of e) = field_text e [''row'', ''count'']"
  "pe_disposition (rc_policy_evaluated (record_of e))
     = field_text e [''row'', ''policy_evaluated'', ''disposition'']"
  "pe_dkim (rc_policy_evaluated (record_of e)) = field_text e [''row'', ''policy_evaluated'', ''dkim'']"
  "pe_spf (rc_policy_evaluated (record_of e)) = field_text e [''row'', ''policy_evaluated'', ''spf'']"
  "id_header_from (rc_identifiers (record_of e)) = field_text e [''identifiers'', ''header_from'']"
  "ar_dkim (rc_auth_results (record_of e)) = field_text e [''auth_results'', ''dkim'', ''domain'']"
  "ar_spf (rc_auth_results (record_of e)) = field_text e [''auth_results'', ''spf'', ''domain'']"
  by (simp_all add: record_of_def)

lemma field_text_without_text:
  "present_but_empty e p \<or> node e p = None \<Longrightarrow> field_text e p = None"
  by (auto simp add: present_but_empty_def field_text_def split: option.splits)

text \<open>
  Claim C9. A leaf element that is present but has no text gives \<open>None\<close> for its field,
  which is the value that an absent leaf gives: in the report returned, the two cannot be
  told apart. This holds for each of the eleven fields of the report and each of the eight
  fields of every record.
\<close>

theorem parse_empty_element_yields_null:
  "\<exists>rep. parse_dmarc_xml (Document root) = Inr rep
     \<and> (present_but_empty root [''report_metadata'', ''org_name'']
          \<or> node root [''report_metadata'', ''org_name''] = None \<longrightarrow>
            md_org_name (report_metadata rep) = None)
     \<and> (present_but_empty root [''report_metadata'', ''email'']
          \<or> node root [''report_metadata'', ''email''] = None \<longrightarrow>
            md_email (report_metadata rep) = None)
     \<and> (present_but_empty root [''report_metadata'', ''report_id'']
          \<or> node root [''report_metadata'', ''report_id''] = None \<longrightarrow>
            md_report_id (report_metadata rep) = None)
     \<and> (present_but_empty root [''report_metadata'', ''date_range'', ''begin'']
          \<or> node root [''report_metadata'', ''date_range'', ''begin''] = None \<longrightarrow>
            dr_begin (md_date_range (report_metadata rep)) = None)
     \<and> (present_but_empty root [''report_metadata'', ''date_range'', ''end'']
          \<or> node root [''report_metadata'', ''date_range'', ''end''] = None \<longrightarrow>
            dr_end (md_date_range (report_metadata rep)) = None)
     \<and> (present_but_empty root [''policy_published'', ''domain'']
          \<or> node root [''policy_published'', ''domain''] = None \<longrightarrow>
            pp_domain (policy_published rep) = None)
     \<and> (present_but_empty root [''policy_published'', ''adkim'']
          \<or> node root [''policy_published'', ''adkim''] = None \<longrightarrow>
            pp_adkim (policy_published rep) = None)
     \<and> (present_but_empty root [''policy_published'', ''aspf'']
          \<or> node root [''policy_published'', ''aspf''] = None \<longrightarrow>
            pp_aspf (policy_published rep) = None)
     \<and> (present_but_empty root [''policy_published'', ''p'']
          \<or> node root [''policy_published'', ''p''] = None \<longrightarrow>
            pp_p (policy_published rep) = None)
     \<and> (present_but_empty root [''policy_published'', ''sp'']
          \<or> node root [''policy_published'', ''sp''] = None \<longrightarrow>
            pp_sp (policy_published rep) = None)
     \<and> (present_but_empty root [''policy_published'', ''pct'']
          \<or> node root [''policy_published'', ''pct''] = None \<longrightarrow>
            pp_pct (policy_published rep) = None)
     \<and> length (records rep) = length (findall root ''record'')
     \<and> (\<forall>i < length (findall root ''record'').
           (present_but_empty (findall root ''record'' ! i) [''row'', ''source_ip'']
              \<or> node (findall root ''record'' ! i) [''row'', ''source_ip''] = None \<longrightarrow>
                rc_source_ip (records rep ! i) = None)
         \<and> (present_but_empty (findall root ''record'' ! i) [''row'', ''count'']
              \<or> node (findall root ''record'' ! i) [''row'', ''count''] = None \<longrightarrow>
                rc_count (records rep ! i) = None)
         \<and> (present_but_empty (findall root ''record'' ! i)
                [''row'', ''policy_evaluated'', ''disposition'']
              \<or> node (findall root ''record'' ! i)
                [''row'', ''policy_evaluated'', ''disposition''] = None \<longrightarrow>
                pe_disposition (rc_policy_evaluated (records rep ! i)) = None)
         \<and> (present_but_empty (findall root ''record'' ! i) [''row'', ''policy_evaluated'', ''dkim'']
              \<or> node (findall root ''record'' ! i) [''row'', ''policy_evaluated'', ''dkim''] = None \<longrightarrow>
                pe_dkim (rc_policy_evaluated (records rep ! i)) = None)
         \<and> (present_but_empty (findall root ''record'' ! i) [''row'', ''policy_evaluated'', ''spf'']
              \<or> node (findall root ''record'' ! i) [''row'', ''policy_evaluated'', ''spf''] = None \<longrightarrow>
                pe_spf (rc_policy_evaluated (records rep ! i)) = None)
         \<and> (present_but_empty (findall root ''record'' ! i) [''identifiers'', ''header_from'']
              \<or> node (findall root ''record'' ! i) [''identifiers'', ''header_from''] = None \<longrightarrow>
                id_header_from (rc_identifiers (records rep ! i)) = None)
         \<and> (present_but_empty (findall root ''record'' ! i) [''auth_results'', ''dkim'', ''domain'']
              \<or> node (findall root ''record'' ! i) [''auth_results'', ''dkim'', ''domain''] = None \<longrightarrow>
                ar_dkim (rc_auth_results (records rep ! i)) = None)
         \<and> (present_but_empty (findall root ''record'' ! i) [''auth_results'', ''spf'', ''domain'']
              \<or> node (findall root ''record'' ! i) [''auth_results'', ''spf'', ''domain''] = None \<longrightarrow>
                ar_spf (rc_auth_results (records rep ! i)) = None))"
proof (intro exI [of _ "report_of root"] conjI allI impI)
  show "parse_dmarc_xml (Document root) = Inr (report_of root)"
    by (rule parse_dmarc_xml_Document)
qed (simp_all only: records_report_of_nth length_records_report_of report_of_fields
      record_of_fields field_text_without_text)

theorem parse_empty_element_yields_null_witness:
  "present_but_empty empty_leaves_document [''report_metadata'', ''org_name'']
   \<and> present_but_empty empty_leaves_document [''report_metadata'', ''date_range'', ''end'']
   \<and> present_but_empty empty_leaves_document [''policy_published'', ''pct'']
   \<and> length (findall empty_leaves_document ''record'') = 1
   \<and> present_but_empty (findall empty_leaves_document ''record'' ! 0) [''row'', ''source_ip'']
   \<and> present_but_empty (findall empty_leaves_document ''record'' ! 0)
        [''row'', ''policy_evaluated'', ''spf'']
   \<and> present_but_empty (findall empty_leaves_document ''record'' ! 0)
        [''auth_results'', ''dkim'', ''domain'']
   \<and> (\<exists>rep. parse_dmarc_xml (Document empty_leaves_document) = Inr rep
          \<and> md_org_name (report_metadata rep) = None
          \<and> dr_end (md_date_range (report_metadata rep)) = None
          \<and> pp_pct (policy_published rep) = None
          \<and> rc_source_ip (records rep ! 0) = None
          \<and> pe_spf (rc_policy_evaluated (records rep ! 0)) = None
          \<and> ar_dkim (rc_auth_results (records rep ! 0)) = None)
   \<and> parse_dmarc_xml (Document empty_leaves_document)
       = parse_dmarc_xml (Document (Element ''feedback'' None [Element ''record'' None []]))"
  using parse_empty_element_yields_null [of empty_leaves_document]
  apply (simp add: empty_leaves_document_def present_but_empty_def findall_def find_el_def)
  apply (erule exE)
  subgoal for rep
    apply (rule conjI)
     apply (rule exI [of _ rep], simp)
    apply (simp add: parse_dmarc_xml_Document report_of_def record_of_def field_text_def
        find_el_def findall_def)
    done
  done

section \<open>Repeated siblings\<close>

lemma first_of_filter_find:
  "(case filter P xs of [] \<Rightarrow> None | c # _ \<Rightarrow> Some c) = List.find P xs"
  by (induction xs) simp_all

lemma find_el_find: "find_el e t = List.find (\<lambda>c. tag c = t) (children e)"
  by (simp add: find_el_def findall_def first_of_filter_find)

lemma find_filter_other_tag:
  "t \<noteq> u \<Longrightarrow>
     List.find (\<lambda>c. tag c = t) (filter (\<lambda>d. tag d \<noteq> u) cs) = List.find (\<lambda>c. tag c = t) cs"
  by (induction cs) auto

lemma find_drop_repeats:
  "List.find (\<lambda>c. tag c = t) (drop_repeats keep cs) = List.find (\<lambda>c. tag c = t) cs"
  by (induction keep cs rule: drop_repeats.induct) (auto simp add: find_filter_other_tag)

lemma find_map_same_tag:
  "(\<And>c. tag (f c) = tag c) \<Longrightarrow>
     List.find (\<lambda>c. tag c = t) (map f cs) = map_option f (List.find (\<lambda>c. tag c = t) cs)"
  by (induction cs) auto

lemma filter_map_same_tag:
  "(\<And>c. tag (f c) = tag c) \<Longrightarrow>
     filter (\<lambda>c. tag c = t) (map f cs) = map f (filter (\<lambda>c. tag c = t) cs)"
  by (induction cs) auto

lemma filter_kept_drop_repeats:
  "keep u \<Longrightarrow>
     filter (\<lambda>c. tag c = u) (drop_repeats keep cs) = filter (\<lambda>c. tag c = u) cs"
proof (induction keep cs rule: drop_repeats.induct)
  case (1 keep)
  then show ?case by simp
next
  case (2 keep c cs)
  show ?case
  proof (cases "keep (tag c)")
    case True
    with 2 show ?thesis by simp
  next
    case False
    with 2 have neq: "u \<noteq> tag c" by auto
    have "filter (\<lambda>d. tag d = u) (filter (\<lambda>d. tag d \<noteq> tag c) cs) = filter (\<lambda>d. tag d = u) cs"
      using neq by (induction cs) auto
    with 2 False neq show ?thesis by auto
  qed
qed

lemma tag_ignore_below [simp]: "tag (ignore_below e) = tag e"
  by (cases e) simp

lemma text_attr_ignore_below [simp]: "text_attr (ignore_below e) = text_attr e"
  by (cases e) simp

lemma find_el_ignore_below:
  "find_el (ignore_below e) t = map_option ignore_below (find_el e t)"
  by (cases e) (simp add: find_el_find find_map_same_tag find_drop_repeats)

lemma node_ignore_below: "node (ignore_below e) p = map_option ignore_below (node e p)"
proof (induction p arbitrary: e)
  case Nil
  then show ?case by simp
next
  case (Cons t ts)
  then show ?case by (cases "find_el e t") (simp_all add: find_el_ignore_below)
qed

lemma field_text_ignore_below: "field_text (ignore_below e) p = field_text e p"
  by (cases "node e p") (simp_all add: field_text_def node_ignore_below)

lemma record_of_ignore_below: "record_of (ignore_below e) = record_of e"
  by (simp add: record_of_def field_text_ignore_below)

lemma find_el_ignore_repeats:
  "find_el (ignore_repeats root) t = map_option ignore_below (find_el root t)"
  by (simp add: ignore_repeats_def find_el_find find_map_same_tag find_drop_repeats)

lemma field_text_ignore_repeats:
  "field_text (ignore_repeats root) (t # ts) = field_text root (t # ts)"
proof (cases "find_el root t")
  case None
  then show ?thesis by (simp add: field_text_def find_el_ignore_repeats)
next
  case (Some c)
  have "field_text (ignore_below c) ts = field_text c ts"
    by (rule field_text_ignore_below)
  with Some show ?thesis by (simp add: field_text_def find_el_ignore_repeats)
qed

lemma findall_ignore_repeats:
  "findall (ignore_repeats root) ''record'' = map ignore_below (findall root ''record'')"
  by (simp add: ignore_repeats_def findall_def filter_map_same_tag filter_kept_drop_repeats)

lemma report_of_ignore_repeats: "report_of (ignore_repeats root) = report_of root"
  by (simp add: report_of_def field_text_ignore_repeats findall_ignore_repeats
      record_of_ignore_below)

lemma filter_drop_repeats_absent:
  "\<forall>c \<in> set cs. tag c \<noteq> t \<Longrightarrow> filter (\<lambda>c. tag c = t) (drop_repeats keep cs) = []"
  using drop_repeats_subset [of keep cs] by (auto simp add: filter_empty_conv)

lemma length_filter_drop_repeats:
  "\<not> keep t \<Longrightarrow> length (filter (\<lambda>c. tag c = t) (drop_repeats keep cs)) \<le> 1"
proof (induction keep cs rule: drop_repeats.induct)
  case (1 keep)
  then show ?case by simp
next
  case (2 keep c cs)
  show ?case
  proof (cases "tag c = t")
    case True
    with "2.prems" have "filter (\<lambda>d. tag d = t) (drop_repeats keep (filter (\<lambda>d. tag d \<noteq> tag c) cs)) = []"
      by (intro filter_drop_repeats_absent) simp
    with True "2.prems" show ?thesis by simp
  next
    case False
    with 2 show ?thesis by simp
  qed
qed

lemma length_findall_ignore_below: "length (findall (ignore_below e) t) \<le> 1"
proof (cases e)
  case (Element g x cs)
  have "length (filter (\<lambda>c. tag c = t) (drop_repeats (\<lambda>_. False) cs)) \<le> 1"
    by (rule length_filter_drop_repeats) simp
  with Element show ?thesis by (simp add: findall_def filter_map_same_tag)
qed

lemma length_findall_ignore_repeats:
  "t \<noteq> ''record'' \<Longrightarrow> length (findall (ignore_repeats root) t) \<le> 1"
proof -
  assume "t \<noteq> ''record''"
  then have "length (filter (\<lambda>c. tag c = t) (drop_repeats (\<lambda>t. t = ''record'') (children root))) \<le> 1"
    by (intro length_filter_drop_repeats) simp
  then show ?thesis by (simp add: ignore_repeats_def findall_def filter_map_same_tag)
qed

text \<open>
  Claim C10. Where several siblings have the same tag, the parser reads the first of them
  in document order and nothing of the later ones: the report is the same as that of the
  document in which, at every level, only the first element of every tag is left, all the
  \<open>record\<close> children of the root excepted. In that document the root has at most one child
  of any tag but \<open>record\<close>, which is the first such child of the root of the document
  given, and below the root no element has two children of the same tag. The \<open>record\<close>
  children of the root are all retained: the report has one record for each of them.
\<close>

theorem parse_reads_first_sibling_only:
  "parse_dmarc_xml (Document (ignore_repeats root)) = parse_dmarc_xml (Document root)
   \<and> (\<forall>t. t \<noteq> ''record'' \<longrightarrow> length (findall (ignore_repeats root) t) \<le> 1)
   \<and> (\<forall>t. find_el (ignore_repeats root) t = map_option ignore_below (find_el root t))
   \<and> (\<forall>e t. length (findall (ignore_below e) t) \<le> 1)
   \<and> (\<forall>e t. find_el (ignore_below e) t = map_option ignore_below (find_el e t))
   \<and> (\<exists>rep. parse_dmarc_xml (Document root) = Inr rep
          \<and> length (records rep) = length (filter (\<lambda>c. tag c = ''record'') (children root)))"
proof (intro conjI allI impI)
  show "parse_dmarc_xml (Document (ignore_repeats root)) = parse_dmarc_xml (Document root)"
    by (simp only: parse_dmarc_xml_Document report_of_ignore_repeats)
next
  have "length (records (report_of root)) = length (filter (\<lambda>c. tag c = ''record'') (children root))"
    by (simp add: report_of_def findall_def)
  then show "\<exists>rep. parse_dmarc_xml (Document root) = Inr rep
          \<and> length (records rep) = length (filter (\<lambda>c. tag c = ''record'') (children root))"
    using parse_dmarc_xml_Document by blast
next
  fix t :: string
  assume "t \<noteq> ''record''"
  then show "length (findall (ignore_repeats root) t) \<le> 1"
    by (rule length_findall_ignore_repeats)
qed (simp_all only: find_el_ignore_repeats length_findall_ignore_below find_el_ignore_below)

text \<open>
  On the report with repeated siblings: what is left of it is the first
  \<open>report_metadata\<close> with its first \<open>org_name\<close>, and both \<open>record\<close> elements, the first with
  its first \<open>dkim\<close>. The report parsed has \<open>org_name\<close> of the first \<open>report_metadata\<close>, no
  \<open>email\<close> (the second \<open>report_metadata\<close> is not read), and two records.
\<close>

theorem parse_reads_first_sibling_only_witness:
  "ignore_repeats repeated_siblings_document =
     Element ''feedback'' None
       [Element ''report_metadata'' None [Element ''org_name'' (Some ''first'') []],
        Element ''record'' None
          [Element ''auth_results'' None
             [Element ''dkim'' None [Element ''domain'' (Some ''one.example'') []]]],
        Element ''record'' None []]
   \<and> parse_dmarc_xml (Document repeated_siblings_document) =
       Inr \<lparr> report_metadata =
               \<lparr> md_org_name = Some ''first'', md_email = None, md_report_id = None,
                 md_date_range = \<lparr> dr_begin = None, dr_end = None \<rparr> \<rparr>,
             policy_published =
               \<lparr> pp_domain = None, pp_adkim = None, pp_aspf = None,
                 pp_p = None, pp_sp = None, pp_pct = None \<rparr>,
             records =
               [null_record \<lparr> rc_auth_results := \<lparr> ar_dkim = Some ''one.example'', ar_spf = None \<rparr> \<rparr>,
                null_record] \<rparr>"
proof -
  let ?L = "Element ''feedback'' None
       [Element ''report_metadata'' None [Element ''org_name'' (Some ''first'') []],
        Element ''record'' None
          [Element ''auth_results'' None
             [Element ''dkim'' None [Element ''domain'' (Some ''one.example'') []]]],
        Element ''record'' None []]"
  have pruned: "ignore_repeats repeated_siblings_document = ?L"
    by (simp add: repeated_siblings_document_def ignore_repeats_def)
  have "parse_dmarc_xml (Document ?L) =
       Inr \<lparr> report_metadata =
               \<lparr> md_org_name = Some ''first'', md_email = None, md_report_id = None,
                 md_date_range = \<lparr> dr_begin = None, dr_end = None \<rparr> \<rparr>,
             policy_published =
               \<lparr> pp_domain = None, pp_adkim = None, pp_aspf = None,
                 pp_p = None, pp_sp = None, pp_pct = None \<rparr>,
             records =
               [null_record \<lparr> rc_auth_results := \<lparr> ar_dkim = Some ''one.example'', ar_spf = None \<rparr> \<rparr>,
                null_record] \<rparr>"
    by (simp add: parse_dmarc_xml_Document report_of_def record_of_def field_text_def
        find_el_def findall_def null_record_def)
  with conjunct1 [OF parse_reads_first_sibling_only [of repeated_siblings_document]] pruned
  show ?thesis by simp
qed

section \<open>One flat row for every record\<close>

lemma append_record_rows_eq:
  "append_record_rows m p rs rows = rows @ map (make_row m p) rs"
  by (induction rs arbitrary: rows) simp_all

lemma append_report_rows_eq:
  "append_report_rows reports rows =
     rows @ concat (map (\<lambda>r. map (make_row (report_metadata r) (policy_published r)) (records r)) reports)"
  by (induction reports arbitrary: rows) (simp_all add: append_record_rows_eq)

lemma flatten_reports_concat:
  "flatten_reports reports =
     concat (map (\<lambda>r. map (make_row (report_metadata r) (policy_published r)) (records r)) reports)"
  by (simp add: flatten_reports_def append_report_rows_eq)

lemma nth_concat_offset:
  "i < length xss \<Longrightarrow> j < length (xss ! i) \<Longrightarrow>
     concat xss ! (sum_list (map length (take i xss)) + j) = xss ! i ! j"
proof (induction xss arbitrary: i)
  case Nil
  then show ?case by simp
next
  case (Cons xs xss)
  show ?case
  proof (cases i)
    case 0
    with Cons.prems show ?thesis by (simp add: nth_append)
  next
    case (Suc k)
    with Cons.prems have "concat xss ! (sum_list (map length (take k xss)) + j) = xss ! k ! j"
      by (intro Cons.IH) simp_all
    with Suc show ?thesis by (simp add: nth_append add.assoc)
  qed
qed

lemma length_flatten_reports:
  "length (flatten_reports reports) = sum_list (map (\<lambda>r. length (records r)) reports)"
  by (simp add: flatten_reports_concat length_concat comp_def)

lemma flatten_reports_nth:
  assumes "i < length reports" and "j < length (records (reports ! i))"
  shows "flatten_reports reports ! (rows_before reports i + j) =
           make_row (report_metadata (reports ! i)) (policy_published (reports ! i))
             (records (reports ! i) ! j)"
proof -
  let ?f = "\<lambda>r. map (make_row (report_metadata r) (policy_published r)) (records r)"
  have off: "rows_before reports i = sum_list (map length (take i (map ?f reports)))"
    by (simp add: rows_before_def take_map comp_def)
  have "concat (map ?f reports) ! (sum_list (map length (take i (map ?f reports))) + j)
          = map ?f reports ! i ! j"
    using assms by (intro nth_concat_offset) simp_all
  with assms off show ?thesis by (simp add: flatten_reports_concat)
qed

lemma make_row_lookup:
  "map_of (make_row m p r) ''org_name'' = Some (md_org_name m)"
  "map_of (make_row m p r) ''email'' = Some (md_email m)"
  "map_of (make_row m p r) ''report_id'' = Some (md_report_id m)"
  "map_of (make_row m p r) ''date_range_begin'' = Some (dr_begin (md_date_range m))"
  "map_of (make_row m p r) ''date_range_end'' = Some (dr_end (md_date_range m))"
  "map_of (make_row m p r) ''domain'' = Some (pp_domain p)"
  "map_of (make_row m p r) ''adkim'' = Some (pp_adkim p)"
  "map_of (make_row m p r) ''aspf'' = Some (pp_aspf p)"
  "map_of (make_row m p r) ''policy_p'' = Some (pp_p p)"
  "map_of (make_row m p r) ''policy_sp'' = Some (pp_sp p)"
  "map_of (make_row m p r) ''policy_pct'' = Some (pp_pct p)"
  "map_of (make_row m p r) ''source_ip'' = Some (rc_source_ip r)"
  "map_of (make_row m p r) ''count'' = Some (rc_count r)"
  "map_of (make_row m p r) ''disposition'' = Some (pe_disposition (rc_policy_evaluated r))"
  "map_of (make_row m p r) ''dkim'' = Some (pe_dkim (rc_policy_evaluated r))"
  "map_of (make_row m p r) ''spf'' = Some (pe_spf (rc_policy_evaluated r))"
  "map_of (make_row m p r) ''header_from'' = Some (id_header_from (rc_identifiers r))"
  "map_of (make_row m p r) ''auth_results_dkim'' = Some (ar_dkim (rc_auth_results r))"
  "map_of (make_row m p r) ''auth_results_spf'' = Some (ar_spf (rc_auth_results r))"
  by (simp_all add: make_row_def)

lemma make_row_keys:
  "map fst (make_row m p r) =
      [''org_name'', ''email'', ''report_id'', ''date_range_begin'',
       ''date_range_end'', ''domain'', ''adkim'', ''aspf'', ''policy_p'',
       ''policy_sp'', ''policy_pct'', ''source_ip'', ''count'',
       ''disposition'', ''dkim'', ''spf'', ''header_from'',
       ''auth_results_dkim'', ''auth_results_spf'']"
  by (simp add: make_row_def)

lemma row_record_make_row: "row_record (make_row m p r) = r"
  by (simp add: row_record_def make_row_def cell_of_def)

text \<open>
  Claim C2. The flattened list has as many rows as the reports have records in total.
  The row at position \<open>rows_before reports i + j\<close>, that is the \<open>j\<close>-th row after those of
  the reports before the \<open>i\<close>-th, holds under the eleven metadata and policy keys the
  values of the \<open>i\<close>-th report, and under the eight record keys the values of the \<open>j\<close>-th
  record of that report.
\<close>

theorem flatten_one_row_per_record:
  "length (flatten_reports reports) = sum_list (map (\<lambda>r. length (records r)) reports)
   \<and> (\<forall>i < length reports. \<forall>j < length (records (reports ! i)).
            map_of (flatten_reports reports ! (rows_before reports i + j)) ''org_name''
                = Some (md_org_name (report_metadata (reports ! i)))
          \<and> map_of (flatten_reports reports ! (rows_before reports i + j)) ''email''
                = Some (md_email (report_metadata (reports ! i)))
          \<and> map_of (flatten_reports reports ! (rows_before reports i + j)) ''report_id''
                = Some (md_report_id (report_metadata (reports ! i)))
          \<and> map_of (flatten_reports reports ! (rows_before reports i + j)) ''date_range_begin''
                = Some (dr_begin (md_date_range (report_metadata (reports ! i))))
          \<and> map_of (flatten_reports reports ! (rows_before reports i + j)) ''date_range_end''
                = Some (dr_end (md_date_range (report_metadata (reports ! i))))
          \<and> map_of (flatten_reports reports ! (rows_before reports i + j)) ''domain''
                = Some (pp_domain (policy_published (reports ! i)))
          \<and> map_of (flatten_reports reports ! (rows_before reports i + j)) ''adkim''
                = Some (pp_adkim (policy_published (reports ! i)))
          \<and> map_of (flatten_reports reports ! (rows_before reports i + j)) ''aspf''
                = Some (pp_aspf (policy_published (reports ! i)))
          \<and> map_of (flatten_reports reports ! (rows_before reports i + j)) ''policy_p''
                = Some (pp_p (policy_published (reports ! i)))
          \<and> map_of (flatten_reports reports ! (rows_before reports i + j)) ''policy_sp''
                = Some (pp_sp (policy_published (reports ! i)))
          \<and> map_of (flatten_reports reports ! (rows_before reports i + j)) ''policy_pct''
                = Some (pp_pct (policy_published (reports ! i)))
          \<and> map_of (flatten_reports reports ! (rows_before reports i + j)) ''source_ip''
                = Some (rc_source_ip (records (reports ! i) ! j))
          \<and> map_of (flatten_reports reports ! (rows_before reports i + j)) ''count''
                = Some (rc_count (records (reports ! i) ! j))
          \<and> map_of (flatten_reports reports ! (rows_before reports i + j)) ''disposition''
                = Some (pe_disposition (rc_policy_evaluated (records (reports ! i) ! j)))
          \<and> map_of (flatten_reports reports ! (rows_before reports i + j)) ''dkim''
                = Some (pe_dkim (rc_policy_evaluated (records (reports ! i) ! j)))
          \<and> map_of (flatten_reports reports ! (rows_before reports i + j)) ''spf''
                = Some (pe_spf (rc_policy_evaluated (records (reports ! i) ! j)))
          \<and> map_of (flatten_reports reports ! (rows_before reports i + j)) ''header_from''
                = Some (id_header_from (rc_identifiers (records (reports ! i) ! j)))
          \<and> map_of (flatten_reports reports ! (rows_before reports i + j)) ''auth_results_dkim''
                = Some (ar_dkim (rc_auth_results (records (reports ! i) ! j)))
          \<and> map_of (flatten_reports reports ! (rows_before reports i + j)) ''auth_results_spf''
                = Some (ar_spf (rc_auth_results (records (reports ! i) ! j))))"
proof (intro conjI allI impI)
  show "length (flatten_reports reports) = sum_list (map (\<lambda>r. length (records r)) reports)"
    by (rule length_flatten_reports)
qed (simp_all only: flatten_reports_nth make_row_lookup)

theorem flatten_one_row_per_record_witness:
  "length [sample_report ''a'' [''192.0.2.1'', ''192.0.2.2''], sample_report ''b'' [''192.0.2.3'']] = 2
   \<and> length (records ([sample_report ''a'' [''192.0.2.1'', ''192.0.2.2''],
                        sample_report ''b'' [''192.0.2.3'']] ! 1)) = 1
   \<and> rows_before [sample_report ''a'' [''192.0.2.1'', ''192.0.2.2''],
                   sample_report ''b'' [''192.0.2.3'']] 1 + 0 = 2
   \<and> length (flatten_reports [sample_report ''a'' [''192.0.2.1'', ''192.0.2.2''],
                              sample_report ''b'' [''192.0.2.3'']]) = 3
   \<and> map_of (flatten_reports [sample_report ''a'' [''192.0.2.1'', ''192.0.2.2''],
                              sample_report ''b'' [''192.0.2.3'']] ! 2) ''org_name''
       = Some (Some ''b'')
   \<and> map_of (flatten_reports [sample_report ''a'' [''192.0.2.1'', ''192.0.2.2''],
                              sample_report ''b'' [''192.0.2.3'']] ! 2) ''source_ip''
       = Some (Some ''192.0.2.3'')"
proof -
  let ?R = "[sample_report ''a'' [''192.0.2.1'', ''192.0.2.2''], sample_report ''b'' [''192.0.2.3'']]"
  have i: "1 < length ?R" by simp
  have j: "0 < length (records (?R ! 1))" by (simp add: sample_report_def)
  have before: "rows_before ?R 1 + 0 = 2" by (simp add: rows_before_def sample_report_def)
  note inst = flatten_one_row_per_record [of ?R]
  note len = conjunct1 [OF inst]
  note row = conjunct2 [OF inst, rule_format, OF i j]
  from len have "length (flatten_reports ?R) = 3" by (simp add: sample_report_def)
  moreover from row before have "map_of (flatten_reports ?R ! 2) ''org_name'' = Some (Some ''b'')"
    by (simp add: sample_report_def)
  moreover from row before have "map_of (flatten_reports ?R ! 2) ''source_ip'' = Some (Some ''192.0.2.3'')"
    by (simp add: sample_report_def null_record_def)
  moreover have "length (records (?R ! 1)) = 1" by (simp add: sample_report_def)
  ultimately show ?thesis using before by simp
qed

section \<open>The order of the records and of the rows\<close>

lemma map_row_record_flatten:
  "map row_record (flatten_reports reports) = concat (map records reports)"
  by (simp add: flatten_reports_concat map_concat comp_def row_record_make_row)

text \<open>
  Claim C4. The records of a report are read from the \<open>record\<close> children of the root in
  document order: there are as many, and the \<open>i\<close>-th record is the one that the loop body
  reads from the \<open>i\<close>-th \<open>record\<close> child, so that nothing is sorted, merged or dropped. The
  record cells of the flattened rows, taken in the order of the rows, are the records of
  the first report followed by those of the second, and so on: as lists, with every
  repetition kept.
\<close>

theorem record_order_preserved:
  "(\<exists>rep. parse_dmarc_xml (Document root) = Inr rep
       \<and> length (records rep) = length (filter (\<lambda>c. tag c = ''record'') (children root))
       \<and> (\<forall>i < length (records rep).
            parse_record (filter (\<lambda>c. tag c = ''record'') (children root) ! i)
              = Inr (records rep ! i)))
   \<and> map row_record (flatten_reports reports) = concat (map records reports)"
proof (intro conjI exI [of _ "report_of root"] allI impI)
  show "parse_dmarc_xml (Document root) = Inr (report_of root)"
    by (rule parse_dmarc_xml_Document)
  show "length (records (report_of root)) = length (filter (\<lambda>c. tag c = ''record'') (children root))"
    by (simp add: report_of_def findall_def)
  show "map row_record (flatten_reports reports) = concat (map records reports)"
    by (rule map_row_record_flatten)
next
  fix i
  assume "i < length (records (report_of root))"
  then show "parse_record (filter (\<lambda>c. tag c = ''record'') (children root) ! i)
               = Inr (records (report_of root) ! i)"
    by (simp add: report_of_def findall_def parse_record_eq)
qed

theorem record_order_preserved_witness:
  "(\<exists>rep. parse_dmarc_xml (Document unsorted_records_document) = Inr rep
       \<and> length (records rep) = 3
       \<and> rc_source_ip (records rep ! 0) = Some ''192.0.2.9''
       \<and> rc_source_ip (records rep ! 1) = Some ''192.0.2.1''
       \<and> rc_source_ip (records rep ! 2) = Some ''192.0.2.9'')
   \<and> map rc_source_ip (map row_record (flatten_reports
         [sample_report ''a'' [''192.0.2.9'', ''192.0.2.1'', ''192.0.2.9''],
          sample_report ''b'' [''192.0.2.9'']]))
       = [Some ''192.0.2.9'', Some ''192.0.2.1'', Some ''192.0.2.9'', Some ''192.0.2.9'']"
proof -
  let ?R = "[sample_report ''a'' [''192.0.2.9'', ''192.0.2.1'', ''192.0.2.9''],
             sample_report ''b'' [''192.0.2.9'']]"
  note inst = record_order_preserved [of unsorted_records_document ?R]
  from conjunct1 [OF inst] obtain rep where
    rep: "parse_dmarc_xml (Document unsorted_records_document) = Inr rep"
    and len: "length (records rep) = length (filter (\<lambda>c. tag c = ''record'')
                 (children unsorted_records_document))"
    and nth: "\<forall>i < length (records rep).
            parse_record (filter (\<lambda>c. tag c = ''record'') (children unsorted_records_document) ! i)
              = Inr (records rep ! i)"
    by blast
  from len have len3: "length (records rep) = 3"
    by (simp add: unsorted_records_document_def)
  from nth len3 have "parse_record (filter (\<lambda>c. tag c = ''record'')
      (children unsorted_records_document) ! 0) = Inr (records rep ! 0)"
    by simp
  then have e0: "records rep ! 0 = record_of (filter (\<lambda>c. tag c = ''record'')
      (children unsorted_records_document) ! 0)"
    by (simp add: parse_record_eq)
  have r0: "rc_source_ip (records rep ! 0) = Some ''192.0.2.9''"
    unfolding e0
    by (simp add: unsorted_records_document_def record_of_def field_text_def
        find_el_def findall_def)
  from nth len3 have "parse_record (filter (\<lambda>c. tag c = ''record'')
      (children unsorted_records_document) ! 1) = Inr (records rep ! 1)"
    by simp
  then have e1: "records rep ! 1 = record_of (filter (\<lambda>c. tag c = ''record'')
      (children unsorted_records_document) ! 1)"
    by (simp add: parse_record_eq)
  have r1: "rc_source_ip (records rep ! 1) = Some ''192.0.2.1''"
    unfolding e1
    by (simp add: unsorted_records_document_def record_of_def field_text_def
        find_el_def findall_def)
  from nth len3 have "parse_record (filter (\<lambda>c. tag c = ''record'')
      (children unsorted_records_document) ! 2) = Inr (records rep ! 2)"
    by simp
  then have e2: "records rep ! 2 = record_of (filter (\<lambda>c. tag c = ''record'')
      (children unsorted_records_document) ! 2)"
    by (simp add: parse_record_eq)
  have r2: "rc_source_ip (records rep ! 2) = Some ''192.0.2.9''"
    unfolding e2
    by (simp add: unsorted_records_document_def record_of_def field_text_def
        find_el_def findall_def)
  from conjunct2 [OF inst]
  have rows: "map rc_source_ip (map row_record (flatten_reports ?R))
       = [Some ''192.0.2.9'', Some ''192.0.2.1'', Some ''192.0.2.9'', Some ''192.0.2.9'']"
    by (simp add: sample_report_def null_record_def)
  from rep len3 r0 r1 r2 rows show ?thesis by blast
qed

section \<open>The header and the cells of the CSV file\<close>

lemma fold_seen_subset:
  "set ks \<subseteq> set seen \<Longrightarrow>
     fold (\<lambda>k seen. if k \<in> set seen then seen else seen @ [k]) ks seen = seen"
  by (induction ks arbitrary: seen) simp_all

lemma fold_seen_fresh:
  "distinct ks \<Longrightarrow> set ks \<inter> set seen = {} \<Longrightarrow>
     fold (\<lambda>k seen. if k \<in> set seen then seen else seen @ [k]) ks seen = seen @ ks"
  by (induction ks arbitrary: seen) auto

lemma first_seen_same_keys:
  assumes "rows \<noteq> []" and "\<forall>row \<in> set rows. map fst row = K" and "distinct K"
  shows "first_seen (concat (map (map fst) rows)) = K"
proof -
  from assms(1) obtain r rs where rows: "rows = r # rs" by (cases rows) auto
  with assms(2) have r: "map fst r = K" and rs: "\<forall>row \<in> set rs. map fst row = K" by auto
  from rs have sub: "set (concat (map (map fst) rs)) \<subseteq> set K" by auto
  have "fold (\<lambda>k seen. if k \<in> set seen then seen else seen @ [k]) K [] = K"
    using fold_seen_fresh [of K "[]"] assms(3) by simp
  with rows r sub show ?thesis by (simp add: first_seen_def fold_seen_subset)
qed

lemma cells_in_key_order:
  assumes "distinct (map fst row)"
  shows "map (cell_of row) (map fst row) = map snd row"
proof -
  have "cell_of row (fst e) = snd e" if "e \<in> set row" for e
  proof -
    from that have "(fst e, snd e) \<in> set row" by simp
    with assms have "map_of row (fst e) = Some (snd e)" by (rule map_of_is_SomeI)
    then show ?thesis by (simp add: cell_of_def)
  qed
  then show ?thesis by simp
qed

lemma flatten_reports_keys:
  "row \<in> set (flatten_reports reports) \<Longrightarrow>
     map fst row =
      [''org_name'', ''email'', ''report_id'', ''date_range_begin'',
       ''date_range_end'', ''domain'', ''adkim'', ''aspf'', ''policy_p'',
       ''policy_sp'', ''policy_pct'', ''source_ip'', ''count'',
       ''disposition'', ''dkim'', ''spf'', ''header_from'',
       ''auth_results_dkim'', ''auth_results_spf'']"
  by (auto simp add: flatten_reports_concat make_row_keys)

lemma flatten_reports_Nil:
  "(flatten_reports reports = []) = (concat (map records reports) = [])"
  by (simp add: flatten_reports_concat)

lemma save_reports_to_csv_no_record:
  "concat (map records reports) = [] \<Longrightarrow> save_reports_to_csv reports = [[]]"
  using flatten_reports_Nil [of reports]
  by (simp add: save_reports_to_csv_def DataFrame_def to_csv_def first_seen_def)

lemma save_reports_to_csv_some_record:
  assumes "concat (map records reports) \<noteq> []"
  shows "save_reports_to_csv reports =
     [''org_name'', ''email'', ''report_id'', ''date_range_begin'',
       ''date_range_end'', ''domain'', ''adkim'', ''aspf'', ''policy_p'',
       ''policy_sp'', ''policy_pct'', ''source_ip'', ''count'',
       ''disposition'', ''dkim'', ''spf'', ''header_from'',
       ''auth_results_dkim'', ''auth_results_spf'']
     # map (\<lambda>row. map render_cell (map snd row)) (flatten_reports reports)"
proof -
  let ?K = "[''org_name'', ''email'', ''report_id'', ''date_range_begin'',
       ''date_range_end'', ''domain'', ''adkim'', ''aspf'', ''policy_p'',
       ''policy_sp'', ''policy_pct'', ''source_ip'', ''count'',
       ''disposition'', ''dkim'', ''spf'', ''header_from'',
       ''auth_results_dkim'', ''auth_results_spf'']"
  let ?rows = "flatten_reports reports"
  have ne: "?rows \<noteq> []" using assms flatten_reports_Nil [of reports] by simp
  have keys: "\<forall>row \<in> set ?rows. map fst row = ?K"
    using flatten_reports_keys by blast
  have dist: "distinct ?K" by simp
  have cols: "first_seen (concat (map (map fst) ?rows)) = ?K"
    using ne keys dist by (rule first_seen_same_keys)
  have "map (cell_of row) ?K = map snd row" if "row \<in> set ?rows" for row
  proof -
    from that keys have k: "map fst row = ?K" by blast
    with dist have "distinct (map fst row)" by simp
    then have "map (cell_of row) (map fst row) = map snd row" by (rule cells_in_key_order)
    with k show ?thesis by simp
  qed
  then have cells: "map (\<lambda>row. map (cell_of row) ?K) ?rows = map (map snd) ?rows"
    by simp
  have "DataFrame ?rows = \<lparr> df_columns = ?K, df_rows = map (map snd) ?rows \<rparr>"
    by (simp only: DataFrame_def Let_def cols cells)
  then show ?thesis
    by (simp only: save_reports_to_csv_def to_csv_def dataframe.simps list.map_comp comp_def)
qed

text \<open>
  Claim C5, as amended. When the reports hold at least one record, the file written has
  the header with the nineteen column names in the fixed order, and then one line for
  every flat row with its nineteen values in that order, a null value written as the empty
  cell and any other value as its text; which fields are null changes nothing in the header.
  When the reports hold no record at all, the frame has no column and the header line is
  empty.
\<close>

theorem csv_header_and_cells:
  "save_reports_to_csv reports =
     (if concat (map records reports) = [] then [[]]
      else [''org_name'', ''email'', ''report_id'', ''date_range_begin'',
       ''date_range_end'', ''domain'', ''adkim'', ''aspf'', ''policy_p'',
       ''policy_sp'', ''policy_pct'', ''source_ip'', ''count'',
       ''disposition'', ''dkim'', ''spf'', ''header_from'',
       ''auth_results_dkim'', ''auth_results_spf'']
        # map (\<lambda>row. map (\<lambda>cell. case cell of None \<Rightarrow> [] | Some s \<Rightarrow> s) (map snd row))
            (flatten_reports reports))
   \<and> (\<forall>row \<in> set (flatten_reports reports). map fst row =
       [''org_name'', ''email'', ''report_id'', ''date_range_begin'',
       ''date_range_end'', ''domain'', ''adkim'', ''aspf'', ''policy_p'',
       ''policy_sp'', ''policy_pct'', ''source_ip'', ''count'',
       ''disposition'', ''dkim'', ''spf'', ''header_from'',
       ''auth_results_dkim'', ''auth_results_spf''])"
proof (intro conjI ballI)
  fix row
  assume "row \<in> set (flatten_reports reports)"
  then show "map fst row =
       [''org_name'', ''email'', ''report_id'', ''date_range_begin'',
       ''date_range_end'', ''domain'', ''adkim'', ''aspf'', ''policy_p'',
       ''policy_sp'', ''policy_pct'', ''source_ip'', ''count'',
       ''disposition'', ''dkim'', ''spf'', ''header_from'',
       ''auth_results_dkim'', ''auth_results_spf'']"
    by (rule flatten_reports_keys)
next
  have "render_cell = (\<lambda>cell. case cell of None \<Rightarrow> [] | Some s \<Rightarrow> s)"
    by (rule ext) (simp add: render_cell_def)
  then show "save_reports_to_csv reports =
     (if concat (map records reports) = [] then [[]]
      else [''org_name'', ''email'', ''report_id'', ''date_range_begin'',
       ''date_range_end'', ''domain'', ''adkim'', ''aspf'', ''policy_p'',
       ''policy_sp'', ''policy_pct'', ''source_ip'', ''count'',
       ''disposition'', ''dkim'', ''spf'', ''header_from'',
       ''auth_results_dkim'', ''auth_results_spf'']
        # map (\<lambda>row. map (\<lambda>cell. case cell of None \<Rightarrow> [] | Some s \<Rightarrow> s) (map snd row))
            (flatten_reports reports))"
    using save_reports_to_csv_no_record [of reports] save_reports_to_csv_some_record [of reports]
    by (cases "concat (map records reports) = []") simp_all
qed

text \<open>
  The claim as it is written fails when there is no record: with no report, or with a
  report that has no record, the header line has no column at all.
\<close>

theorem csv_header_empty_without_records:
  "save_reports_to_csv [] = [[]]
   \<and> save_reports_to_csv [sample_report ''a'' []] = [[]]
   \<and> hd (save_reports_to_csv [sample_report ''a'' []]) \<noteq>
       [''org_name'', ''email'', ''report_id'', ''date_range_begin'',
       ''date_range_end'', ''domain'', ''adkim'', ''aspf'', ''policy_p'',
       ''policy_sp'', ''policy_pct'', ''source_ip'', ''count'',
       ''disposition'', ''dkim'', ''spf'', ''header_from'',
       ''auth_results_dkim'', ''auth_results_spf'']"
  by (simp add: save_reports_to_csv_no_record sample_report_def)

theorem csv_header_and_cells_witness:
  "flatten_reports [sample_report ''a'' [''192.0.2.1'']] \<noteq> []
   \<and> save_reports_to_csv [sample_report ''a'' [''192.0.2.1'']] =
       [[''org_name'', ''email'', ''report_id'', ''date_range_begin'',
       ''date_range_end'', ''domain'', ''adkim'', ''aspf'', ''policy_p'',
       ''policy_sp'', ''policy_pct'', ''source_ip'', ''count'',
       ''disposition'', ''dkim'', ''spf'', ''header_from'',
       ''auth_results_dkim'', ''auth_results_spf''],
        [''a'', [], [], [], [], [], [], [], [], [], [], ''192.0.2.1'', [], [], [], [], [], [], []]]"
proof -
  have ne: "concat (map records [sample_report ''a'' [''192.0.2.1'']]) \<noteq> []"
    by (simp add: sample_report_def)
  have rows: "flatten_reports [sample_report ''a'' [''192.0.2.1'']] =
      [make_row (report_metadata (sample_report ''a'' [''192.0.2.1'']))
         (policy_published (sample_report ''a'' [''192.0.2.1'']))
         (null_record \<lparr> rc_source_ip := Some ''192.0.2.1'' \<rparr>)]"
    by (simp add: flatten_reports_concat sample_report_def)
  from conjunct1 [OF csv_header_and_cells [of "[sample_report ''a'' [''192.0.2.1'']]"]] ne
  have "save_reports_to_csv [sample_report ''a'' [''192.0.2.1'']] =
       [''org_name'', ''email'', ''report_id'', ''date_range_begin'',
       ''date_range_end'', ''domain'', ''adkim'', ''aspf'', ''policy_p'',
       ''policy_sp'', ''policy_pct'', ''source_ip'', ''count'',
       ''disposition'', ''dkim'', ''spf'', ''header_from'',
       ''auth_results_dkim'', ''auth_results_spf'']
        # map (\<lambda>row. map (\<lambda>cell. case cell of None \<Rightarrow> [] | Some s \<Rightarrow> s) (map snd row))
            (flatten_reports [sample_report ''a'' [''192.0.2.1'']])"
    by simp
  then show ?thesis
    unfolding rows by (simp add: make_row_def sample_report_def null_record_def)
qed

section \<open>Grouping, summing and the twenty largest\<close>

























section \<open>Removing files\<close>

lemma lookup_File: "lookup (File c) p = (if p = [] then Some (File c) else None)"
  by (cases p) simp_all

lemma stat_Nil: "stat n [] = (case n of File c \<Rightarrow> Some (IsFile c) | Dir es \<Rightarrow> Some IsDir)"
  by (simp add: stat_def)

lemma stat_File: "stat (File c) p = (if p = [] then Some (IsFile c) else None)"
  by (simp add: stat_def lookup_File)

lemma stat_Dir_Cons:
  "stat (Dir es) (a # p) = (case map_of es a of None \<Rightarrow> None | Some x \<Rightarrow> stat x p)"
  by (simp add: stat_def split: option.splits)

lemma stat_IsFile_iff: "(stat fs p = Some (IsFile c)) = (lookup fs p = Some (File c))"
  by (simp add: stat_def split: option.splits fs_tree.splits)

lemma wf_tree_child:
  "wf_tree (Dir es) \<Longrightarrow> map_of es a = Some x \<Longrightarrow> wf_tree x"
  by (auto dest: map_of_SomeD)

lemma wf_tree_delete:
  assumes "wf_tree (Dir es)"
  shows "wf_tree (Dir (AList.delete a es))"
proof -
  from assms have "distinct (map fst (AList.delete a es))"
    by (simp add: AList.distinct_delete)
  moreover have "set (AList.delete a es) \<subseteq> set es"
    by (auto simp add: AList.delete_eq)
  ultimately show ?thesis using assms by auto
qed

lemma wf_tree_update:
  assumes "wf_tree (Dir es)" and "wf_tree x"
  shows "wf_tree (Dir (AList.update a x es))"
proof -
  from assms(1) have d: "distinct (map fst (AList.update a x es))"
    by (simp add: AList.distinct_update)
  have "wf_tree (snd e)" if "e \<in> set (AList.update a x es)" for e
  proof -
    from that have "(fst e, snd e) \<in> set (AList.update a x es)" by simp
    with d have "map_of (AList.update a x es) (fst e) = Some (snd e)" by simp
    then have m: "((map_of es)(a \<mapsto> x)) (fst e) = Some (snd e)"
      by (simp add: AList.update_conv')
    show ?thesis
    proof (cases "fst e = a")
      case True
      with m assms(2) show ?thesis by simp
    next
      case False
      with m have "map_of es (fst e) = Some (snd e)" by simp
      with assms(1) show ?thesis by (rule wf_tree_child)
    qed
  qed
  with d show ?thesis by simp
qed

lemma os_remove_file:
  "wf_tree fs \<Longrightarrow> lookup fs p = Some (File c) \<Longrightarrow> p \<noteq> [] \<Longrightarrow>
     \<exists>fs'. os_remove p fs = Inr fs' \<and> wf_tree fs'
       \<and> (\<forall>q. stat fs' q = (if q = p then None else stat fs q))"
proof (induction p fs arbitrary: c rule: os_remove.induct)
  case (1 n)
  then show ?case by simp
next
  case (2 a p c')
  then show ?case by simp
next
  case (3 a p es)
  from "3.prems"(2) obtain x where mx: "map_of es a = Some x" and lx: "lookup x p = Some (File c)"
    by (auto split: option.splits)
  from "3.prems"(1) mx have wfx: "wf_tree x" by (rule wf_tree_child)
  show ?case
  proof (cases "p = []")
    case True
    with lx have x: "x = File c" by simp
    have "stat (Dir (AList.delete a es)) q = (if q = a # p then None else stat (Dir es) q)" for q
    proof (cases q)
      case Nil
      then show ?thesis by (simp add: stat_Nil)
    next
      case (Cons b r)
      with mx x True show ?thesis
        by (simp add: stat_Dir_Cons AList.delete_conv' stat_File)
    qed
    with mx x True "3.prems"(1) show ?thesis
      by (simp add: wf_tree_delete del: wf_tree.simps)
  next
    case False
    from "3.IH" [OF mx False wfx lx False] obtain x' where
      rx: "os_remove p x = Inr x'" and wfx': "wf_tree x'"
      and sx: "\<forall>q. stat x' q = (if q = p then None else stat x q)"
      by blast
    have "stat (Dir (AList.update a x' es)) q = (if q = a # p then None else stat (Dir es) q)" for q
    proof (cases q)
      case Nil
      then show ?thesis by (simp add: stat_Nil)
    next
      case (Cons b r)
      with mx sx show ?thesis
        by (simp add: stat_Dir_Cons AList.update_conv')
    qed
    with mx rx False wfx' "3.prems"(1) show ?thesis
      by (simp add: wf_tree_update del: wf_tree.simps)
  qed
qed

lemma remove_paths_files:
  "wf_tree fs \<Longrightarrow> distinct ps \<Longrightarrow>
   \<forall>p \<in> set ps. p \<noteq> [] \<and> (\<exists>c. lookup fs p = Some (File c)) \<Longrightarrow>
     \<exists>fs'. remove_paths ps fs = (Inr (), fs') \<and> wf_tree fs'
       \<and> (\<forall>q. stat fs' q = (if q \<in> set ps then None else stat fs q))"
proof (induction ps arbitrary: fs)
  case Nil
  then show ?case by simp
next
  case (Cons p ps)
  from Cons.prems obtain c where p: "p \<noteq> []" "lookup fs p = Some (File c)" by auto
  from os_remove_file [OF Cons.prems(1) p(2) p(1)] obtain fs1 where
    r1: "os_remove p fs = Inr fs1" and wf1: "wf_tree fs1"
    and s1: "\<forall>q. stat fs1 q = (if q = p then None else stat fs q)"
    by blast
  have "\<forall>p' \<in> set ps. p' \<noteq> [] \<and> (\<exists>c. lookup fs1 p' = Some (File c))"
  proof
    fix p'
    assume in_ps: "p' \<in> set ps"
    with Cons.prems obtain c' where p': "p' \<noteq> []" "lookup fs p' = Some (File c')" by auto
    from in_ps Cons.prems(2) have "p' \<noteq> p" by auto
    with s1 have "stat fs1 p' = stat fs p'" by simp
    with p'(2) have "lookup fs1 p' = Some (File c')" by (simp add: stat_IsFile_iff [symmetric])
    with p'(1) show "p' \<noteq> [] \<and> (\<exists>c. lookup fs1 p' = Some (File c))" by blast
  qed
  moreover from Cons.prems(2) have "distinct ps" by simp
  ultimately obtain fs2 where
    r2: "remove_paths ps fs1 = (Inr (), fs2)" and wf2: "wf_tree fs2"
    and s2: "\<forall>q. stat fs2 q = (if q \<in> set ps then None else stat fs1 q)"
    using Cons.IH [OF wf1] by blast
  from s1 s2 have "\<forall>q. stat fs2 q = (if q \<in> set (p # ps) then None else stat fs q)" by simp
  with r1 r2 wf2 show ?case by simp
qed

lemma remove_paths_append:
  "remove_paths (ps @ qs) fs =
     (case remove_paths ps fs of (Inl e, fs') \<Rightarrow> (Inl e, fs') | (Inr u, fs') \<Rightarrow> remove_paths qs fs')"
  by (induction ps arbitrary: fs) (auto split: sum.splits)

lemma remove_xml_in_eq:
  "remove_xml_in root files fs =
     remove_paths (filter (\<lambda>p. endswith (last p) ''.xml'') (map (\<lambda>f. root @ [f]) files)) fs"
  by (induction files arbitrary: fs) (auto split: sum.splits)

lemma file_paths_Cons:
  "file_paths ((root, dirs, files) # ws) = map (\<lambda>f. root @ [f]) files @ file_paths ws"
  by (simp add: file_paths_def)

lemma cleanup_walk_eq:
  "cleanup_walk ws fs = remove_paths (filter (\<lambda>p. endswith (last p) ''.xml'') (file_paths ws)) fs"
proof (induction ws fs rule: cleanup_walk.induct)
  case (1 fs)
  then show ?case by (simp add: file_paths_def)
next
  case (2 root dirs files rest fs)
  then show ?case
    by (auto simp add: file_paths_Cons remove_paths_append remove_xml_in_eq
        split: prod.splits sum.splits)
qed

lemma file_paths_concat: "file_paths (concat wss) = concat (map file_paths wss)"
  by (induction wss) (simp_all add: file_paths_def)

lemma file_paths_walk: "file_paths (walk dirpath n) = map ((@) dirpath) (rel_files n)"
proof (induction dirpath n rule: walk.induct)
  case (1 dirpath c)
  then show ?case by (simp add: file_paths_def)
next
  case (2 dirpath es)
  let ?files = "filter (\<lambda>e. \<not> is_dir (snd e)) es"
  let ?dirs = "filter (\<lambda>e. is_dir (snd e)) es"
  have "file_paths (walk (dirpath @ [fst e]) (snd e))
          = map ((@) dirpath) (map ((#) (fst e)) (rel_files (snd e)))"
    if "e \<in> set ?dirs" for e
    using "2.IH" [OF that] by simp
  then have eq: "map (\<lambda>e. file_paths (walk (dirpath @ [fst e]) (snd e))) ?dirs
          = map (\<lambda>e. map ((@) dirpath) (map ((#) (fst e)) (rel_files (snd e)))) ?dirs"
    by (intro map_cong refl)
  have lhs: "file_paths (walk dirpath (Dir es))
          = map (\<lambda>e. dirpath @ [fst e]) ?files
            @ concat (map (\<lambda>e. file_paths (walk (dirpath @ [fst e]) (snd e))) ?dirs)"
    by (simp add: file_paths_Cons file_paths_concat comp_def)
  have rhs: "map ((@) dirpath) (rel_files (Dir es))
          = map (\<lambda>e. dirpath @ [fst e]) ?files
            @ concat (map (\<lambda>e. map ((@) dirpath) (map ((#) (fst e)) (rel_files (snd e)))) ?dirs)"
    by (simp add: map_concat comp_def)
  show ?case by (simp only: lhs rhs eq)
qed

lemma distinct_map_singleton: "distinct xs \<Longrightarrow> distinct (map (\<lambda>a. [a]) xs)"
  by (simp add: distinct_map inj_on_def)

lemma rel_files_nonempty: "q \<in> set (rel_files n) \<Longrightarrow> q \<noteq> []"
  by (cases n) auto

lemma distinct_concat_prefixed:
  "distinct (map fst ds) \<Longrightarrow> \<forall>e \<in> set ds. distinct (g e) \<Longrightarrow>
     distinct (concat (map (\<lambda>e. map ((#) (fst e)) (g e)) ds))"
proof (induction ds)
  case Nil
  then show ?case by simp
next
  case (Cons d ds)
  then have "distinct (concat (map (\<lambda>e. map ((#) (fst e)) (g e)) ds))" by simp
  moreover from Cons.prems have "distinct (map ((#) (fst d)) (g d))"
    by (simp add: distinct_map)
  moreover from Cons.prems(1)
  have "set (map ((#) (fst d)) (g d)) \<inter> set (concat (map (\<lambda>e. map ((#) (fst e)) (g e)) ds)) = {}"
    by auto
  ultimately show ?case by simp
qed

lemma distinct_rel_files: "wf_tree n \<Longrightarrow> distinct (rel_files n)"
proof (induction n rule: rel_files.induct)
  case (1 c)
  then show ?case by simp
next
  case (2 es)
  let ?files = "filter (\<lambda>e. \<not> is_dir (snd e)) es"
  let ?dirs = "filter (\<lambda>e. is_dir (snd e)) es"
  from "2.prems" have d: "distinct (map fst es)" and wf: "\<forall>e \<in> set es. wf_tree (snd e)"
    by simp_all
  from d have "distinct (map fst ?files)" by (rule distinct_map_filter)
  then have "distinct (map (\<lambda>a. [a]) (map fst ?files))"
    by (rule distinct_map_singleton)
  then have a: "distinct (map (\<lambda>e. [fst e]) ?files)" by (simp add: comp_def)
  from d have "distinct (map fst ?dirs)" by (rule distinct_map_filter)
  moreover have "\<forall>e \<in> set ?dirs. distinct (rel_files (snd e))"
    using "2.IH" wf by simp
  ultimately have b: "distinct (concat (map (\<lambda>e. map ((#) (fst e)) (rel_files (snd e))) ?dirs))"
    by (rule distinct_concat_prefixed)
  have c: "set (map (\<lambda>e. [fst e]) ?files)
             \<inter> set (concat (map (\<lambda>e. map ((#) (fst e)) (rel_files (snd e))) ?dirs)) = {}"
    by (auto dest: rel_files_nonempty)
  from a b c show ?case by simp
qed

lemma in_rel_files_Dir:
  "(a # r \<in> set (rel_files (Dir es))) =
     ((r = [] \<and> (\<exists>x. (a, x) \<in> set es \<and> \<not> is_dir x))
      \<or> (\<exists>x. (a, x) \<in> set es \<and> is_dir x \<and> r \<in> set (rel_files x)))"
  by (auto simp add: image_iff)

lemma in_rel_files_iff:
  "wf_tree n \<Longrightarrow> (q \<in> set (rel_files n)) = (q \<noteq> [] \<and> (\<exists>c. lookup n q = Some (File c)))"
proof (induction n arbitrary: q rule: rel_files.induct)
  case (1 c)
  show ?case by (simp add: lookup_File)
next
  case (2 es)
  from "2.prems" have d: "distinct (map fst es)" and wf: "\<forall>e \<in> set es. wf_tree (snd e)"
    by simp_all
  show ?case
  proof (cases q)
    case Nil
    then show ?thesis using rel_files_nonempty [of "[]" "Dir es"] by auto
  next
    case (Cons a r)
    show ?thesis
    proof (cases "map_of es a")
      case None
      then have "\<And>x. (a, x) \<notin> set es" by (auto simp add: map_of_eq_None_iff image_iff)
      with Cons None show ?thesis by (simp add: in_rel_files_Dir del: rel_files.simps)
    next
      case (Some x)
      have only: "((a, y) \<in> set es) = (y = x)" for y
      proof
        assume "(a, y) \<in> set es"
        with d have "map_of es a = Some y" by (rule map_of_is_SomeI)
        with Some show "y = x" by simp
      next
        assume "y = x"
        with Some show "(a, y) \<in> set es" by (simp add: map_of_SomeD)
      qed
      show ?thesis
      proof (cases x)
        case (File c')
        with Cons Some only show ?thesis
          by (simp add: in_rel_files_Dir lookup_File del: rel_files.simps)
      next
        case (Dir ds)
        from Some have "(a, x) \<in> set es" by (rule map_of_SomeD)
        with wf have wfx: "wf_tree x" by auto
        have "is_dir x" using Dir by simp
        with \<open>(a, x) \<in> set es\<close> have "(a, x) \<in> set (filter (\<lambda>e. is_dir (snd e)) es)" by simp
        from "2.IH" [OF this] wfx
        have ih: "(r \<in> set (rel_files x)) = (r \<noteq> [] \<and> (\<exists>c. lookup x r = Some (File c)))"
          by simp
        have "r \<noteq> []" if "lookup x r = Some (File c)" for c
          using that Dir by (cases r) auto
        with Cons Some only Dir ih show ?thesis
          by (auto simp add: in_rel_files_Dir simp del: rel_files.simps)
      qed
    qed
  qed
qed

lemma lookup_append:
  "lookup fs (p @ q) = (case lookup fs p of None \<Rightarrow> None | Some n \<Rightarrow> lookup n q)"
  by (induction fs p rule: lookup.induct) (auto simp add: lookup_File split: option.splits)

lemma wf_tree_lookup: "wf_tree fs \<Longrightarrow> lookup fs p = Some n \<Longrightarrow> wf_tree n"
proof (induction fs p rule: lookup.induct)
  case (1 n)
  then show ?case by simp
next
  case (2 c a p)
  then show ?case by simp
next
  case (3 es a p)
  from "3.prems"(2) obtain x where x: "map_of es a = Some x" "lookup x p = Some n"
    by (auto split: option.splits)
  from "3.prems"(1) x(1) have "wf_tree x" by (rule wf_tree_child)
  with "3.IH" x show ?case by simp
qed

lemma cleanup_extracted_files_removes_xml:
  assumes wf: "wf_tree fs"
  shows "\<exists>fs'. cleanup_extracted_files output_dir fs = (Inr (), fs') \<and> wf_tree fs'
           \<and> (\<forall>q. stat fs' q = (if xml_file_under fs output_dir q then None else stat fs q))"
proof (cases "lookup fs output_dir")
  case None
  have "\<not> xml_file_under fs output_dir q" for q
  proof
    assume x: "xml_file_under fs output_dir q"
    then have "q = output_dir @ drop (length output_dir) q"
      by (metis append_take_drop_id xml_file_under_def)
    then have "lookup fs q = None"
      using None lookup_append [of fs output_dir "drop (length output_dir) q"] by simp
    with x show False by (simp add: xml_file_under_def)
  qed
  with None wf show ?thesis
    by (simp add: cleanup_extracted_files_def os_walk_def)
next
  case (Some n)
  let ?xml = "\<lambda>p. endswith (last p) ''.xml''"
  let ?ps = "filter ?xml (map ((@) output_dir) (rel_files n))"
  have run: "cleanup_extracted_files output_dir fs = remove_paths ?ps fs"
    using Some by (simp add: cleanup_extracted_files_def os_walk_def cleanup_walk_eq file_paths_walk)
  from wf Some have wfn: "wf_tree n" by (rule wf_tree_lookup)
  then have "distinct (rel_files n)" by (rule distinct_rel_files)
  then have "distinct (map ((@) output_dir) (rel_files n))"
    by (simp add: distinct_map inj_on_def)
  then have dps: "distinct ?ps" by (rule distinct_filter)
  have below: "lookup fs (output_dir @ r) = lookup n r" for r
    using Some by (simp add: lookup_append)
  have files: "\<forall>p \<in> set ?ps. p \<noteq> [] \<and> (\<exists>c. lookup fs p = Some (File c))"
  proof
    fix p
    assume "p \<in> set ?ps"
    then obtain r where r: "p = output_dir @ r" "r \<in> set (rel_files n)" by auto
    with wfn have "r \<noteq> []" "\<exists>c. lookup n r = Some (File c)"
      by (simp_all add: in_rel_files_iff)
    with r below show "p \<noteq> [] \<and> (\<exists>c. lookup fs p = Some (File c))" by simp
  qed
  from remove_paths_files [OF wf dps files] obtain fs' where
    res: "remove_paths ?ps fs = (Inr (), fs')" and wf': "wf_tree fs'"
    and st: "\<forall>q. stat fs' q = (if q \<in> set ?ps then None else stat fs q)"
    by blast
  have "(q \<in> set ?ps) = xml_file_under fs output_dir q" for q
  proof
    assume "q \<in> set ?ps"
    then obtain r where r: "q = output_dir @ r" "r \<in> set (rel_files n)" and x: "?xml q" by auto
    with wfn have "r \<noteq> []" "\<exists>c. lookup n r = Some (File c)"
      by (simp_all add: in_rel_files_iff)
    with r x below show "xml_file_under fs output_dir q"
      by (auto simp add: xml_file_under_def)
  next
    assume x: "xml_file_under fs output_dir q"
    let ?r = "drop (length output_dir) q"
    from x have q: "q = output_dir @ ?r"
      by (metis append_take_drop_id xml_file_under_def)
    from x have "?r \<noteq> []" by (simp add: xml_file_under_def)
    moreover from x obtain c where "lookup fs q = Some (File c)"
      by (auto simp add: xml_file_under_def split: option.splits fs_tree.splits)
    with q below [of ?r] have "lookup n ?r = Some (File c)" by simp
    ultimately have "?r \<in> set (rel_files n)" using wfn by (simp add: in_rel_files_iff)
    then have "output_dir @ ?r \<in> set (map ((@) output_dir) (rel_files n))" by simp
    with q have "q \<in> set (map ((@) output_dir) (rel_files n))" by simp
    moreover from x have "?xml q" by (simp add: xml_file_under_def)
    ultimately show "q \<in> set ?ps" by simp
  qed
  with st have "\<forall>q. stat fs' q = (if xml_file_under fs output_dir q then None else stat fs q)"
    by simp
  with run res wf' show ?thesis by simp
qed

text \<open>
  Claim C7. However the \<open>try\<close> block ends, with an exception raised by the extraction, the
  parsing, the writing of the CSV file or the chart, or with none, the cleanup runs on
  the files as the block left them, and the script ends with what the block raised or
  returned. After it, nothing is left at the path of any file below the output directory,
  at any depth, whose name ends in \<open>.xml\<close>; at every other path there is what was there
  before: the same file with the same content, or a directory, also one whose own name
  ends in \<open>.xml\<close>. The files are taken to be a tree in which no directory has two entries
  of the same name.
\<close>

theorem cleanup_runs_on_every_exit:
  assumes "try_block process_step save_step chart_step fs = (outcome, fs1)"
    and "wf_tree fs1"
  shows "\<exists>fs2. main_script process_step save_step chart_step output_dir fs = (outcome, fs2)
           \<and> (\<forall>p. stat fs2 p = (if xml_file_under fs1 output_dir p then None else stat fs1 p))"
proof -
  from cleanup_extracted_files_removes_xml [OF assms(2), of output_dir] obtain fs2 where
    "cleanup_extracted_files output_dir fs1 = (Inr (), fs2)"
    and "\<forall>p. stat fs2 p = (if xml_file_under fs1 output_dir p then None else stat fs1 p)"
    by blast
  with assms(1) show ?thesis by (simp add: main_script_def)
qed

theorem cleanup_runs_on_every_exit_witness:
  "try_block (\<lambda>fs. (Inl ParseError, fs)) (\<lambda>(reports :: report list) fs. (Inr (), fs))
      (\<lambda>fs. (Inr (), fs)) sample_files = (Inl ParseError, sample_files)
   \<and> wf_tree sample_files
   \<and> (\<exists>fs2. main_script (\<lambda>fs. (Inl ParseError, fs)) (\<lambda>(reports :: report list) fs. (Inr (), fs))
               (\<lambda>fs. (Inr (), fs)) [] sample_files = (Inl ParseError, fs2)
          \<and> stat fs2 [''a.xml''] = None
          \<and> stat fs2 [''sub'', ''b.xml''] = None
          \<and> stat fs2 [''notes.txt''] = Some (IsFile ''keep'')
          \<and> stat fs2 [''sub'', ''c.xml.gz''] = Some (IsFile ''packed'')
          \<and> stat fs2 [''sub''] = Some IsDir
          \<and> stat fs2 [''d.xml''] = Some IsDir
          \<and> stat fs2 [''d.xml'', ''e.txt''] = Some (IsFile ''keep''))"
proof -
  let ?P = "\<lambda>fs :: fs_tree. (Inl ParseError :: error + report list, fs)"
  let ?S = "\<lambda>(reports :: report list) (fs :: fs_tree). (Inr () :: error + unit, fs)"
  let ?C = "\<lambda>fs :: fs_tree. (Inr () :: error + unit, fs)"
  have block: "try_block ?P ?S ?C sample_files = (Inl ParseError, sample_files)"
    by (simp add: try_block_def)
  have wf: "wf_tree sample_files"
    by (simp add: sample_files_def)
  from cleanup_runs_on_every_exit [OF block wf, of "[]"] obtain fs2 where
    run: "main_script ?P ?S ?C [] sample_files = (Inl ParseError, fs2)"
    and st: "\<forall>p. stat fs2 p = (if xml_file_under sample_files [] p then None else stat sample_files p)"
    by blast
  have "stat fs2 [''a.xml''] = None" "stat fs2 [''sub'', ''b.xml''] = None"
    "stat fs2 [''notes.txt''] = Some (IsFile ''keep'')"
    "stat fs2 [''sub'', ''c.xml.gz''] = Some (IsFile ''packed'')"
    "stat fs2 [''sub''] = Some IsDir" "stat fs2 [''d.xml''] = Some IsDir"
    "stat fs2 [''d.xml'', ''e.txt''] = Some (IsFile ''keep'')"
    by (simp_all only: st) (simp_all add: xml_file_under_def sample_files_def stat_def endswith_def)
  with block wf run show ?thesis by blast
qed

lemma cleanup_sample_files:
  "cleanup_extracted_files [] sample_files =
     (Inr (), Dir [(''notes.txt'', File ''keep''),
                   (''sub'', Dir [(''c.xml.gz'', File ''packed'')]),
                   (''d.xml'', Dir [(''e.txt'', File ''keep'')])])"
  by (simp add: cleanup_extracted_files_def os_walk_def sample_files_def endswith_def)

section \<open>The name of an unpacked gzip file, on an example\<close>

text \<open>
  Claim C6 fails on the code. For the gzip file
  \<open>mx.gzip-hosting.net!example.com!1609459200!1609545599.xml.gz\<close> the output file should be
  named \<open>mx.gzip-hosting.net!example.com!1609459200!1609545599.xml\<close>, the name without its
  suffix. The code writes to \<open>mxip-hosting.net!example.com!1609459200!1609545599.xml\<close>:
  \<open>replace\<close> also takes the \<open>.gz\<close> out of the middle of the name. On a name with no other
  \<open>.gz\<close> in it, such as \<open>report.xml.gz\<close>, the two agree.
\<close>

theorem gz_output_path_removes_every_gz:
  "endswith ''mx.gzip-hosting.net!example.com!1609459200!1609545599.xml.gz'' ''.gz''
   \<and> gz_output_path [''work'']
         [''inbox'', ''mx.gzip-hosting.net!example.com!1609459200!1609545599.xml.gz'']
       = [''work'', ''mxip-hosting.net!example.com!1609459200!1609545599.xml'']
   \<and> strip_gz_suffix ''mx.gzip-hosting.net!example.com!1609459200!1609545599.xml.gz''
       = ''mx.gzip-hosting.net!example.com!1609459200!1609545599.xml''
   \<and> gz_output_path [''work''] [''inbox'', ''report.xml.gz''] = [''work'', ''report.xml'']"
  by (simp add: gz_output_path_def basename_def replace_def strip_gz_suffix_def endswith_def)

end
